theory Spec2Isabelle
  imports Main "HOL-Library.AList" "HOL-Library.Sublist"
begin

section \<open>Python values\<close>

text \<open>
  The proxy handles decoded JSON documents: Python's \<^verbatim>\<open>None\<close>, \<^verbatim>\<open>bool\<close>, \<^verbatim>\<open>int\<close>,
  \<^verbatim>\<open>float\<close>, \<^verbatim>\<open>str\<close>, \<^verbatim>\<open>list\<close> and \<^verbatim>\<open>dict\<close>. A \<^verbatim>\<open>dict\<close> keeps its keys in
  insertion order and is modelled as an association list, read with \<^const>\<open>map_of\<close> and
  written with \<^const>\<open>AList.update\<close> and \<^const>\<open>AList.delete\<close>.

  A \<^verbatim>\<open>str\<close> is a sequence of code points; it is modelled by its UTF-8 encoding, a
  \<^typ>\<open>string\<close> of bytes, in which a code point from the surrogate range is written with
  three bytes like its neighbours. Equality, emptiness and the substring test of two
  texts are those of their encodings, and the ASCII characters that the program looks
  for (braces, quotes, digits) are single bytes that occur in no longer sequence.

  What the interpreter contributes is the parameter \<open>F\<close> of the model, a \<open>runtime\<close>.
  Binary floating point is not computed here: the type of floats is the parameter
  \<open>'f\<close>, and what the program needs from a float (its truth value, whether it is finite,
  its \<^verbatim>\<open>repr\<close>, its conversion from a literal) are fields of the runtime. The other two
  fields are limits of the interpreter: \<^verbatim>\<open>sys.get_int_max_str_digits()\<close>, where 0
  switches the limit off, and the number of nested containers that \<^verbatim>\<open>json.loads\<close> can
  open before the interpreter raises \<^verbatim>\<open>RecursionError\<close>.
\<close>

datatype 'f json =
    JNull
  | JBool bool
  | JInt int
  | JFloat 'f
  | JStr string
  | JArr "'f json list"
  | JObj "(string \<times> 'f json) list"

type_synonym 'f dict = "(string \<times> 'f json) list"

record 'f runtime =
  float_is_zero :: "'f \<Rightarrow> bool"
  float_is_finite :: "'f \<Rightarrow> bool"
  float_repr :: "'f \<Rightarrow> string"
  float_of_literal :: "string \<Rightarrow> 'f"
  int_max_str_digits :: nat
  recursion_limit :: nat

datatype error =
    KeyError string
  | IndexError
  | TypeError
  | AttributeError
  | ValueError
  | RecursionError
  | JSONDecodeError
  | UnicodeDecodeError
  | UnicodeEncodeError
  | TransportError
  | HTTPException nat string

text \<open>Python's truth value of an object, as \<^verbatim>\<open>if not rf\<close> and \<^verbatim>\<open>bool(...)\<close> test it.\<close>

fun truthy :: "'f runtime \<Rightarrow> 'f json \<Rightarrow> bool" where
  "truthy F JNull = False"
| "truthy F (JBool b) = b"
| "truthy F (JInt i) = (i \<noteq> 0)"
| "truthy F (JFloat x) = (\<not> float_is_zero F x)"
| "truthy F (JStr s) = (s \<noteq> [])"
| "truthy F (JArr xs) = (xs \<noteq> [])"
| "truthy F (JObj d) = (d \<noteq> [])"

text \<open>\<^verbatim>\<open>d.get(k)\<close> and \<^verbatim>\<open>d.get(k, default)\<close>: the value, or the default.\<close>

definition dict_get :: "'f dict \<Rightarrow> string \<Rightarrow> 'f json \<Rightarrow> 'f json" where
  "dict_get d k dflt = (case map_of d k of None \<Rightarrow> dflt | Some v \<Rightarrow> v)"

text \<open>\<^verbatim>\<open>d.setdefault(k, v)\<close>: the value under \<open>k\<close>, stored as \<open>v\<close> at the end when absent.\<close>

definition dict_setdefault :: "'f dict \<Rightarrow> string \<Rightarrow> 'f json \<Rightarrow> 'f json \<times> 'f dict" where
  "dict_setdefault d k v = (case map_of d k of None \<Rightarrow> (v, d @ [(k, v)]) | Some x \<Rightarrow> (x, d))"

text \<open>\<^verbatim>\<open>v == s\<close> for a string \<open>s\<close>: only the same string is equal to it.\<close>

definition eq_str :: "'f json \<Rightarrow> string \<Rightarrow> bool" where
  "eq_str v s = (case v of JStr t \<Rightarrow> t = s | _ \<Rightarrow> False)"

text \<open>\<^verbatim>\<open>k in x\<close> for a string \<open>k\<close>: key membership in a dict, substring test in a string,
  element test in a list, and a \<^verbatim>\<open>TypeError\<close> for the objects that are not containers.\<close>

fun py_contains :: "string \<Rightarrow> 'f json \<Rightarrow> error + bool" where
  "py_contains k (JObj d) = Inr (map_of d k \<noteq> None)"
| "py_contains k (JStr s) = Inr (sublist k s)"
| "py_contains k (JArr xs) = Inr (list_ex (\<lambda>x. eq_str x k) xs)"
| "py_contains k JNull = Inl TypeError"
| "py_contains k (JBool b) = Inl TypeError"
| "py_contains k (JInt i) = Inl TypeError"
| "py_contains k (JFloat x) = Inl TypeError"

text \<open>\<^verbatim>\<open>x[k]\<close> for a string \<open>k\<close>: only a dict can be subscripted by a string.\<close>

fun py_getitem :: "'f json \<Rightarrow> string \<Rightarrow> error + 'f json" where
  "py_getitem (JObj d) k = (case map_of d k of None \<Rightarrow> Inl (KeyError k) | Some v \<Rightarrow> Inr v)"
| "py_getitem JNull k = Inl TypeError"
| "py_getitem (JBool b) k = Inl TypeError"
| "py_getitem (JInt i) k = Inl TypeError"
| "py_getitem (JFloat x) k = Inl TypeError"
| "py_getitem (JStr s) k = Inl TypeError"
| "py_getitem (JArr xs) k = Inl TypeError"

subsection \<open>Code points\<close>

text \<open>
  The bytes of one code point, and the code points of a text. The number of bytes of a
  sequence is read from its first byte.
\<close>

definition utf8_encode :: "nat \<Rightarrow> string" where
  "utf8_encode n =
    (if n < 0x80 then [char_of n]
     else if n < 0x800 then [char_of (0xC0 + n div 64), char_of (0x80 + n mod 64)]
     else if n < 0x10000 then
       [char_of (0xE0 + n div 4096), char_of (0x80 + n div 64 mod 64), char_of (0x80 + n mod 64)]
     else
       [char_of (0xF0 + n div 262144), char_of (0x80 + n div 4096 mod 64),
        char_of (0x80 + n div 64 mod 64), char_of (0x80 + n mod 64)])"

definition utf8_length :: "char \<Rightarrow> nat" where
  "utf8_length c =
    (let b = (of_char c :: nat) in
     if b < 0xC0 then 1 else if b < 0xE0 then 2 else if b < 0xF0 then 3 else 4)"

text \<open>
  \<open>code_points k acc s\<close> reads \<open>s\<close> when \<open>k\<close> bytes of the current sequence are still to
  come and \<open>acc\<close> holds the bits read so far.
\<close>

fun code_points :: "nat \<Rightarrow> nat \<Rightarrow> string \<Rightarrow> nat list" where
  "code_points k acc [] = (if k = 0 then [] else [acc])"
| "code_points k acc (c # cs) =
    (let b = (of_char c :: nat) in
     if k = 0 then
       (if b < 0xC0 then b # code_points 0 0 cs
        else if b < 0xE0 then code_points 1 (b mod 32) cs
        else if b < 0xF0 then code_points 2 (b mod 16) cs
        else code_points 3 (b mod 8) cs)
     else if k = 1 then (acc * 64 + b mod 64) # code_points 0 0 cs
     else code_points (k - 1) (acc * 64 + b mod 64) cs)"

text \<open>\<^verbatim>\<open>x[0]\<close>: the first element of a list, the first character of a string, a
  \<^verbatim>\<open>KeyError\<close> on a dict decoded from JSON (its keys are strings).\<close>

fun py_getitem0 :: "'f json \<Rightarrow> error + 'f json" where
  "py_getitem0 (JArr []) = Inl IndexError"
| "py_getitem0 (JArr (x # xs)) = Inr x"
| "py_getitem0 (JStr []) = Inl IndexError"
| "py_getitem0 (JStr (c # cs)) = Inr (JStr (take (utf8_length c) (c # cs)))"
| "py_getitem0 (JObj d) = Inl (KeyError ''0'')"
| "py_getitem0 JNull = Inl TypeError"
| "py_getitem0 (JBool b) = Inl TypeError"
| "py_getitem0 (JInt i) = Inl TypeError"
| "py_getitem0 (JFloat x) = Inl TypeError"

section \<open>The JSON codec of the standard library\<close>

subsection \<open>Serialisation\<close>

text \<open>
  \<^verbatim>\<open>json.dumps(v, separators=(",", ":"))\<close>: no whitespace between items, keys in the
  dict's own order, and every code point outside the printable ASCII range written as a
  \<^verbatim>\<open>\u\<close> escape of four hexadecimal digits, or as two of them (a surrogate pair) from
  \<^verbatim>\<open>U+10000\<close> on; this is the default of \<^verbatim>\<open>dumps\<close>. The documents that the proxy
  serialises were decoded under the interpreter's limit on digits, so printing their
  integers does not raise.
\<close>

definition digit_char :: "nat \<Rightarrow> char" where
  "digit_char n = (if n < 10 then char_of (48 + n) else char_of (87 + n))"

fun str_nat :: "nat \<Rightarrow> string" where
  "str_nat n = (if n < 10 then [digit_char n] else str_nat (n div 10) @ [digit_char (n mod 10)])"

definition str_int :: "int \<Rightarrow> string" where
  "str_int i = (if i < 0 then CHR ''-'' # str_nat (nat (- i)) else str_nat (nat i))"

definition hex4 :: "nat \<Rightarrow> string" where
  "hex4 n =
    [CHR 0x5C, CHR ''u'', digit_char (n div 4096 mod 16), digit_char (n div 256 mod 16),
     digit_char (n div 16 mod 16), digit_char (n mod 16)]"

definition escape_point :: "nat \<Rightarrow> string" where
  "escape_point n =
    (if n = 0x22 then [CHR 0x5C, CHR 0x22]
     else if n = 0x5C then [CHR 0x5C, CHR 0x5C]
     else if n = 0x0A then [CHR 0x5C, CHR ''n'']
     else if n = 0x0D then [CHR 0x5C, CHR ''r'']
     else if n = 0x09 then [CHR 0x5C, CHR ''t'']
     else if n = 0x08 then [CHR 0x5C, CHR ''b'']
     else if n = 0x0C then [CHR 0x5C, CHR ''f'']
     else if 32 \<le> n \<and> n \<le> 126 then [char_of n]
     else if n < 0x10000 then hex4 n
     else hex4 (0xD800 + (n - 0x10000) div 1024) @ hex4 (0xDC00 + (n - 0x10000) mod 1024))"

definition dumps_str :: "string \<Rightarrow> string" where
  "dumps_str s = CHR 0x22 # concat (map escape_point (code_points 0 0 s)) @ [CHR 0x22]"

fun join_comma :: "string list \<Rightarrow> string" where
  "join_comma [] = []"
| "join_comma [x] = x"
| "join_comma (x # y # ys) = x @ CHR '','' # join_comma (y # ys)"

fun json_dumps :: "'f runtime \<Rightarrow> 'f json \<Rightarrow> string" where
  "json_dumps F JNull = ''null''"
| "json_dumps F (JBool b) = (if b then ''true'' else ''false'')"
| "json_dumps F (JInt i) = str_int i"
| "json_dumps F (JFloat x) = float_repr F x"
| "json_dumps F (JStr s) = dumps_str s"
| "json_dumps F (JArr xs) = CHR ''['' # join_comma (map (json_dumps F) xs) @ '']''"
| "json_dumps F (JObj d) =
     CHR ''{'' # join_comma (map (\<lambda>(k, v). dumps_str k @ CHR '':'' # json_dumps F v) d) @ ''}''"

subsection \<open>Tokens\<close>

text \<open>
  \<^verbatim>\<open>json.loads\<close> accepts the JSON grammar, with the constants \<^verbatim>\<open>NaN\<close>,
  \<^verbatim>\<open>Infinity\<close> and \<^verbatim>\<open>-Infinity\<close>, and whitespace (space, tab, line feed, carriage
  return) around every token. It reads the text from left to right, once, and stops at
  the first error. A text that is not a JSON document gives \<^verbatim>\<open>JSONDecodeError\<close>; an
  integer literal with more digits than the interpreter converts gives
  \<^verbatim>\<open>ValueError\<close>; a container nested deeper than the interpreter allows gives
  \<^verbatim>\<open>RecursionError\<close>.
\<close>

datatype 'f token =
    TLBrace
  | TRBrace
  | TLBracket
  | TRBracket
  | TColon
  | TComma
  | TValue "'f json"

definition is_digit :: "char \<Rightarrow> bool" where
  "is_digit c = ((48::nat) \<le> of_char c \<and> of_char c \<le> (57::nat))"

definition is_space :: "char \<Rightarrow> bool" where
  "is_space c = (c = CHR '' '' \<or> c = CHR 0x09 \<or> c = CHR 0x0A \<or> c = CHR 0x0D)"

definition hex_val :: "char \<Rightarrow> nat option" where
  "hex_val c =
    (let n = (of_char c :: nat) in
     if 48 \<le> n \<and> n \<le> 57 then Some (n - 48)
     else if 97 \<le> n \<and> n \<le> 102 then Some (n - 87)
     else if 65 \<le> n \<and> n \<le> 70 then Some (n - 55)
     else None)"

text \<open>The four hexadecimal digits of a \<^verbatim>\<open>\u\<close> escape: their value and the text after them.\<close>

definition read_hex4 :: "string \<Rightarrow> (nat \<times> string) option" where
  "read_hex4 cs =
    (case cs of
       h1 # h2 # h3 # h4 # rest \<Rightarrow>
         (case (hex_val h1, hex_val h2, hex_val h3, hex_val h4) of
            (Some a, Some b, Some c, Some d) \<Rightarrow> Some (((a * 16 + b) * 16 + c) * 16 + d, rest)
          | _ \<Rightarrow> None)
     | _ \<Rightarrow> None)"

text \<open>
  After the escape of a high surrogate \<open>n\<close>: the escape of a low surrogate that follows
  it at once, if there is one. The two are then one code point.
\<close>

definition low_surrogate_after :: "nat \<Rightarrow> string \<Rightarrow> (nat \<times> string) option" where
  "low_surrogate_after n cs =
    (if 0xD800 \<le> n \<and> n \<le> 0xDBFF then
       (case cs of
          b # u # hs \<Rightarrow>
            if b = CHR 0x5C \<and> u = CHR ''u'' then
              (case read_hex4 hs of
                 Some (n2, rest) \<Rightarrow> if 0xDC00 \<le> n2 \<and> n2 \<le> 0xDFFF then Some (n2, rest) else None
               | None \<Rightarrow> None)
            else None
        | _ \<Rightarrow> None)
     else None)"

definition join_surrogates :: "nat \<Rightarrow> nat \<Rightarrow> nat" where
  "join_surrogates hi lo = 0x10000 + (hi - 0xD800) * 1024 + (lo - 0xDC00)"

text \<open>The character a one-letter escape stands for.\<close>

definition unescape :: "char \<Rightarrow> char option" where
  "unescape e =
    (if e = CHR 0x22 then Some (CHR 0x22)
     else if e = CHR 0x5C then Some (CHR 0x5C)
     else if e = CHR ''/'' then Some (CHR ''/'')
     else if e = CHR ''b'' then Some (CHR 0x08)
     else if e = CHR ''f'' then Some (CHR 0x0C)
     else if e = CHR ''n'' then Some (CHR 0x0A)
     else if e = CHR ''r'' then Some (CHR 0x0D)
     else if e = CHR ''t'' then Some (CHR 0x09)
     else None)"

lemma read_hex4_rest: "read_hex4 cs = Some (n, rest) \<Longrightarrow> \<exists>pre. cs = pre @ rest \<and> length pre = 4"
  by (auto simp: read_hex4_def split: list.splits option.splits)

lemma low_surrogate_after_rest:
  "low_surrogate_after n cs = Some (n2, rest) \<Longrightarrow> \<exists>pre. cs = pre @ rest \<and> length pre = 6"
proof -
  assume a: "low_surrogate_after n cs = Some (n2, rest)"
  then obtain b u hs where cs: "cs = b # u # hs" and h: "read_hex4 hs = Some (n2, rest)"
    by (auto simp: low_surrogate_after_def split: if_splits list.splits option.splits)
  from read_hex4_rest [OF h] obtain pre where "hs = pre @ rest" "length pre = 4" by blast
  with cs have "cs = (b # u # pre) @ rest \<and> length (b # u # pre) = 6" by simp
  then show ?thesis by blast
qed

text \<open>
  The body of a string literal, read after its opening quote: the decoded text and the
  text after the closing quote. A control character, an unknown escape or a missing
  closing quote is an error. A \<^verbatim>\<open>\u\<close> escape denotes the code point of its four
  hexadecimal digits, and the escapes of a high and a low surrogate in a row denote the
  code point of the pair.
\<close>

function scanstring :: "string \<Rightarrow> (string \<times> string) option" where
  "scanstring [] = None"
| "scanstring (c # cs) =
    (if c = CHR 0x22 then Some ([], cs)
     else if c = CHR 0x5C then
       (case cs of
          [] \<Rightarrow> None
        | e # es \<Rightarrow>
            if e = CHR ''u'' then
              (case read_hex4 es of
                 None \<Rightarrow> None
               | Some (n, rest) \<Rightarrow>
                   (case low_surrogate_after n rest of
                      Some (n2, rest2) \<Rightarrow>
                        (case scanstring rest2 of
                           None \<Rightarrow> None
                         | Some (s, r) \<Rightarrow> Some (utf8_encode (join_surrogates n n2) @ s, r))
                    | None \<Rightarrow>
                        (case scanstring rest of
                           None \<Rightarrow> None
                         | Some (s, r) \<Rightarrow> Some (utf8_encode n @ s, r))))
            else
              (case unescape e of
                 None \<Rightarrow> None
               | Some ch \<Rightarrow>
                   (case scanstring es of None \<Rightarrow> None | Some (s, r) \<Rightarrow> Some (ch # s, r))))
     else if (of_char c :: nat) < 32 then None
     else (case scanstring cs of None \<Rightarrow> None | Some (s, r) \<Rightarrow> Some (c # s, r)))"
  by pat_completeness auto
termination
proof (relation "measure length")
  show "wf (measure (length :: string \<Rightarrow> nat))" by simp
next
  fix c :: char and cs e es x2 n rest x2a n2 rest2
  assume "cs = e # es" "read_hex4 es = Some x2" "(n, rest) = x2"
    "low_surrogate_after n rest = Some x2a" "(n2, rest2) = x2a"
  then have "read_hex4 es = Some (n, rest)" "low_surrogate_after n rest = Some (n2, rest2)"
    by simp_all
  from read_hex4_rest [OF this(1)] low_surrogate_after_rest [OF this(2)] \<open>cs = e # es\<close>
  show "(rest2, c # cs) \<in> measure length" by auto
next
  fix c :: char and cs e es x2 n rest
  assume "cs = e # es" "read_hex4 es = Some x2" "(n, rest) = x2"
  then have "read_hex4 es = Some (n, rest)" by simp
  from read_hex4_rest [OF this] \<open>cs = e # es\<close>
  show "(rest, c # cs) \<in> measure length" by auto
qed auto

declare scanstring.simps [simp del]

text \<open>
  A number literal: an optional minus sign, \<^verbatim>\<open>0\<close> or a run of digits that does not
  start with \<^verbatim>\<open>0\<close>, then a fraction when a dot is followed by a digit, then an exponent
  when \<^verbatim>\<open>e\<close> or \<^verbatim>\<open>E\<close>, after an optional sign, is followed by a digit. A literal with
  neither part is converted by \<^verbatim>\<open>int\<close>, which refuses more digits than the limit of
  the interpreter; any other one is converted by \<^verbatim>\<open>float\<close>.
\<close>

definition scan_sign :: "string \<Rightarrow> string \<times> string" where
  "scan_sign cs =
    (case cs of [] \<Rightarrow> ([], cs) | c # rest \<Rightarrow> if c = CHR ''-'' then ([c], rest) else ([], cs))"

definition scan_int_part :: "string \<Rightarrow> (string \<times> string) option" where
  "scan_int_part cs =
    (case cs of
       [] \<Rightarrow> None
     | c # rest \<Rightarrow>
         if c = CHR ''0'' then Some ([c], rest)
         else if is_digit c then Some (takeWhile is_digit cs, dropWhile is_digit cs)
         else None)"

definition scan_frac :: "string \<Rightarrow> string \<times> string" where
  "scan_frac cs =
    (case cs of
       c # d # rest \<Rightarrow>
         if c = CHR ''.'' \<and> is_digit d
         then (c # takeWhile is_digit (d # rest), dropWhile is_digit (d # rest))
         else ([], cs)
     | _ \<Rightarrow> ([], cs))"

definition scan_exp :: "string \<Rightarrow> string \<times> string" where
  "scan_exp cs =
    (case cs of
       [] \<Rightarrow> ([], cs)
     | e # rest \<Rightarrow>
         if e = CHR ''e'' \<or> e = CHR ''E'' then
           (let (sg, ds) =
              (case rest of
                 [] \<Rightarrow> ([], rest)
               | s # rest' \<Rightarrow> if s = CHR ''+'' \<or> s = CHR ''-'' then ([s], rest') else ([], rest))
            in if takeWhile is_digit ds = [] then ([], cs)
               else (e # sg @ takeWhile is_digit ds, dropWhile is_digit ds))
         else ([], cs))"

text \<open>The sign, the integer part, the fraction and the exponent of the literal at the
  front of a text, and the text after the literal.\<close>

definition number_parts :: "string \<Rightarrow> ((string \<times> string \<times> string \<times> string) \<times> string) option" where
  "number_parts cs =
    (let (sg, cs1) = scan_sign cs
     in case scan_int_part cs1 of
          None \<Rightarrow> None
        | Some (ip, cs2) \<Rightarrow>
            (let (fp, cs3) = scan_frac cs2;
                 (ep, cs4) = scan_exp cs3
             in Some ((sg, ip, fp, ep), cs4)))"

fun dec_val :: "nat \<Rightarrow> string \<Rightarrow> nat" where
  "dec_val acc [] = acc"
| "dec_val acc (c # cs) = dec_val (acc * 10 + (of_char c - 48)) cs"

definition number_value :: "'f runtime \<Rightarrow> string \<times> string \<times> string \<times> string \<Rightarrow> error + 'f json" where
  "number_value F parts =
    (case parts of (sg, ip, fp, ep) \<Rightarrow>
       if fp = [] \<and> ep = [] then
         (if 0 < int_max_str_digits F \<and> int_max_str_digits F < length ip then Inl ValueError
          else Inr (JInt (if sg = [] then int (dec_val 0 ip) else - int (dec_val 0 ip))))
       else Inr (JFloat (float_of_literal F (sg @ ip @ fp @ ep))))"

text \<open>
  One token from the front of a text that does not start with whitespace: a punctuation
  character, a string literal, one of the constants, or a number literal.
\<close>

definition punct :: "char \<Rightarrow> 'f token option" where
  "punct c =
    (if c = CHR ''{'' then Some TLBrace
     else if c = CHR ''}'' then Some TRBrace
     else if c = CHR ''['' then Some TLBracket
     else if c = CHR '']'' then Some TRBracket
     else if c = CHR '':'' then Some TColon
     else if c = CHR '','' then Some TComma
     else None)"

definition constants :: "'f runtime \<Rightarrow> (string \<times> 'f json) list" where
  "constants F =
    [(''null'', JNull), (''true'', JBool True), (''false'', JBool False),
     (''NaN'', JFloat (float_of_literal F ''NaN'')),
     (''Infinity'', JFloat (float_of_literal F ''Infinity'')),
     (''-Infinity'', JFloat (float_of_literal F ''-Infinity''))]"

fun scan_constant :: "(string \<times> 'f json) list \<Rightarrow> string \<Rightarrow> ('f json \<times> string) option" where
  "scan_constant [] cs = None"
| "scan_constant ((w, v) # ws) cs =
    (if prefix w cs then Some (v, drop (length w) cs) else scan_constant ws cs)"

definition scan_token :: "'f runtime \<Rightarrow> string \<Rightarrow> error + 'f token \<times> string" where
  "scan_token F cs =
    (case cs of
       [] \<Rightarrow> Inl JSONDecodeError
     | c # rest \<Rightarrow>
         (case punct c of
            Some t \<Rightarrow> Inr (t, rest)
          | None \<Rightarrow>
              if c = CHR 0x22 then
                (case scanstring rest of
                   None \<Rightarrow> Inl JSONDecodeError
                 | Some (s, r) \<Rightarrow> Inr (TValue (JStr s), r))
              else
                (case scan_constant (constants F) cs of
                   Some (v, r) \<Rightarrow> Inr (TValue v, r)
                 | None \<Rightarrow>
                     (case number_parts cs of
                        None \<Rightarrow> Inl JSONDecodeError
                      | Some (parts, r) \<Rightarrow>
                          (case number_value F parts of
                             Inl e \<Rightarrow> Inl e
                           | Inr v \<Rightarrow> Inr (TValue v, r))))))"

text \<open>
  Every scanner consumes a part of the front of the text, and a token at least one
  character of it, so reading a text ends.
\<close>

lemma scanstring_suffix: "scanstring cs = Some (s, r) \<Longrightarrow> suffix r cs \<and> length r < length cs"
proof (induction cs arbitrary: s r rule: scanstring.induct)
  case 1
  then show ?case by (simp add: scanstring.simps)
next
  case (2 c cs)
  note eq = "2.prems" [unfolded scanstring.simps(2) [of c cs]]
  show ?case
  proof (cases "c = CHR 0x22")
    case True
    with eq show ?thesis by (simp add: suffix_ConsI)
  next
    case notq: False
    show ?thesis
    proof (cases "c = CHR 0x5C")
      case False
      with notq eq obtain s' where "scanstring cs = Some (s', r)"
        by (auto split: if_splits option.splits)
      with notq False eq have "suffix r cs \<and> length r < length cs"
        by (intro "2.IH"(4)) (auto split: if_splits)
      then show ?thesis by (simp add: suffix_ConsI)
    next
      case bs: True
      show ?thesis
      proof (cases cs)
        case Nil
        with notq bs eq show ?thesis by simp
      next
        case (Cons e es)
        show ?thesis
        proof (cases "e = CHR ''u''")
          case False
          with notq bs Cons eq obtain ch s' where
            u: "unescape e = Some ch" and r: "scanstring es = Some (s', r)"
            by (auto split: option.splits)
          from notq bs Cons False u r have "suffix r es \<and> length r < length es"
            by (intro "2.IH"(3)) auto
          with Cons show ?thesis by (simp add: suffix_ConsI)
        next
          case True
          with notq bs Cons eq obtain n rest where h: "read_hex4 es = Some (n, rest)"
            by (auto split: option.splits)
          from read_hex4_rest [OF h] have sr: "suffix rest es" "length rest < length es"
            by (auto simp: suffix_def)
          show ?thesis
          proof (cases "low_surrogate_after n rest")
            case None
            with notq bs Cons True h eq obtain s' where r: "scanstring rest = Some (s', r)"
              by (auto split: option.splits)
            from notq bs Cons True h None r have "suffix r rest \<and> length r < length rest"
              by (intro "2.IH"(1)) auto
            with sr Cons show ?thesis
              by (auto intro: suffix_ConsI suffix_order.trans)
          next
            case (Some p)
            obtain n2 rest2 where p: "p = (n2, rest2)" by (cases p)
            from low_surrogate_after_rest [of n rest n2 rest2] Some p
            have sr2: "suffix rest2 rest" "length rest2 < length rest"
              by (auto simp: suffix_def)
            from notq bs Cons True h Some p eq obtain s' where
              r: "scanstring rest2 = Some (s', r)"
              by (auto split: option.splits)
            from notq bs Cons True h Some p r have "suffix r rest2 \<and> length r < length rest2"
              by (intro "2.IH"(2)) auto
            with sr sr2 Cons show ?thesis
              by (auto intro: suffix_ConsI suffix_order.trans)
          qed
        qed
      qed
    qed
  qed
qed

lemma scan_sign_suffix: "scan_sign cs = (sg, r) \<Longrightarrow> suffix r cs"
  by (cases cs) (auto simp: scan_sign_def suffix_ConsI split: if_splits)

lemma scan_int_part_suffix:
  "scan_int_part cs = Some (ip, r) \<Longrightarrow> suffix r cs \<and> length r < length cs \<and> length ip \<le> length cs"
proof (cases cs)
  case Nil
  then show "scan_int_part cs = Some (ip, r) \<Longrightarrow> ?thesis" by (simp add: scan_int_part_def)
next
  case (Cons c rest)
  assume a: "scan_int_part cs = Some (ip, r)"
  have 1: "suffix (dropWhile is_digit rest) (c # rest)"
    by (rule suffix_ConsI, rule suffix_dropWhile)
  have 2: "length (dropWhile is_digit rest) \<le> length rest" by (rule length_dropWhile_le)
  have 3: "length (takeWhile is_digit rest) \<le> length rest" by (rule length_takeWhile_le)
  from a Cons 1 2 3 show ?thesis
    by (auto simp: scan_int_part_def suffix_ConsI split: if_splits)
qed

lemma scan_frac_suffix: "scan_frac cs = (fp, r) \<Longrightarrow> suffix r cs"
proof (cases cs)
  case Nil
  then show "scan_frac cs = (fp, r) \<Longrightarrow> suffix r cs" by (simp add: scan_frac_def)
next
  case (Cons c ds)
  assume a: "scan_frac cs = (fp, r)"
  show "suffix r cs"
  proof (cases ds)
    case Nil
    with Cons a show ?thesis by (simp add: scan_frac_def)
  next
    case (Cons d rest)
    have "suffix (dropWhile is_digit (d # rest)) (c # d # rest)"
      by (rule suffix_ConsI) (rule suffix_dropWhile)
    with Cons \<open>cs = c # ds\<close> a show ?thesis
      by (auto simp: scan_frac_def simp del: dropWhile.simps split: if_splits)
  qed
qed

lemma scan_exp_suffix: "scan_exp cs = (ep, r) \<Longrightarrow> suffix r cs"
proof (cases cs)
  case Nil
  then show "scan_exp cs = (ep, r) \<Longrightarrow> suffix r cs" by (simp add: scan_exp_def)
next
  case (Cons e rest)
  assume a: "scan_exp cs = (ep, r)"
  show "suffix r cs"
  proof (cases rest)
    case Nil
    with Cons a show ?thesis by (auto simp: scan_exp_def split: if_splits)
  next
    case (Cons s rest')
    have 1: "suffix (dropWhile is_digit rest') (e # s # rest')"
      by (rule suffix_ConsI, rule suffix_ConsI, rule suffix_dropWhile)
    have 2: "suffix (dropWhile is_digit (s # rest')) (e # s # rest')"
      by (rule suffix_ConsI, rule suffix_dropWhile)
    from Cons \<open>cs = e # rest\<close> a 1 2 show ?thesis
      by (auto simp: scan_exp_def simp del: dropWhile.simps split: if_splits)
  qed
qed

lemma number_parts_suffix:
  assumes a: "number_parts cs = Some ((sg, ip, fp, ep), r)"
  shows "suffix r cs \<and> length r < length cs \<and> length ip \<le> length cs"
proof -
  obtain sg' cs1 where s: "scan_sign cs = (sg', cs1)" by (cases "scan_sign cs")
  from a s obtain cs2 where i: "scan_int_part cs1 = Some (ip, cs2)"
    by (cases "scan_int_part cs1") (auto simp: number_parts_def split: prod.splits)
  obtain f cs3 where f: "scan_frac cs2 = (f, cs3)" by (cases "scan_frac cs2")
  obtain e cs4 where e: "scan_exp cs3 = (e, cs4)" by (cases "scan_exp cs3")
  from a s i f e have r: "r = cs4" by (simp add: number_parts_def)
  note s1 = scan_sign_suffix [OF s] and s2 = scan_int_part_suffix [OF i]
    and s3 = scan_frac_suffix [OF f] and s4 = scan_exp_suffix [OF e]
  from s1 s2 s3 s4 r have "suffix r cs"
    by (blast intro: suffix_order.trans)
  moreover from s1 s2 s3 s4 r have "length r < length cs" "length ip \<le> length cs"
    by (auto dest!: suffix_length_le)
  ultimately show ?thesis by simp
qed

lemma scan_constant_suffix:
  "scan_constant ws cs = Some (v, r) \<Longrightarrow> \<forall>(w, v) \<in> set ws. w \<noteq> [] \<Longrightarrow>
   suffix r cs \<and> length r < length cs"
proof (induction ws)
  case Nil
  then show ?case by simp
next
  case (Cons p ws)
  obtain w u where p: "p = (w, u)" by (cases p)
  show ?case
  proof (cases "prefix w cs")
    case True
    then obtain zs where "cs = w @ zs" by (auto simp: prefix_def)
    moreover from Cons.prems p have "w \<noteq> []" by simp
    moreover from Cons.prems(1) p True have "r = drop (length w) cs" by simp
    ultimately show ?thesis by (simp add: suffix_def)
  next
    case False
    with Cons p show ?thesis by simp
  qed
qed

lemma scan_token_suffix:
  fixes F :: "'f runtime"
  assumes a: "scan_token F cs = Inr (t, r)"
  shows "suffix r cs \<and> length r < length cs"
proof (cases cs)
  case Nil
  with a show ?thesis by (simp add: scan_token_def)
next
  case (Cons c rest)
  show ?thesis
  proof (cases "punct c :: 'f token option")
    case (Some t')
    with a Cons show ?thesis by (simp add: scan_token_def suffix_ConsI)
  next
    case None
    show ?thesis
    proof (cases "c = CHR 0x22")
      case True
      with a Cons None obtain s where "scanstring rest = Some (s, r)"
        by (auto simp: scan_token_def split: option.splits)
      from scanstring_suffix [OF this] Cons show ?thesis by (simp add: suffix_ConsI)
    next
      case notq: False
      show ?thesis
      proof (cases "scan_constant (constants F) cs")
        case (Some p)
        with a Cons None notq have "scan_constant (constants F) cs = Some (fst p, r)"
          by (auto simp: scan_token_def split: prod.splits)
        then show ?thesis
          by (rule scan_constant_suffix) (simp add: constants_def)
      next
        case nc: None
        with a Cons None notq obtain sg ip fp ep where
          "number_parts cs = Some ((sg, ip, fp, ep), r)"
          by (auto simp: scan_token_def split: option.splits sum.splits)
        from number_parts_suffix [OF this] show ?thesis by simp
      qed
    qed
  qed
qed

subsection \<open>Values\<close>

text \<open>
  The containers that are open while the text is read: a list with the items read so
  far, or a dict with the members read so far and the key that waits for its value. A
  dict is built member by member, so a repeated key keeps its first place and takes its
  last value, as \<^verbatim>\<open>dict(pairs)\<close> does.
\<close>

datatype 'f frame =
    InArray "'f json list"
  | InObject "'f dict" "string option"

datatype expect = Value | ValueOrEnd | Key | KeyOrEnd | Colon | CommaOrEnd

datatype 'f pstate =
    Parsing "'f frame list" expect
  | Finished "'f json"

text \<open>A complete value goes into the innermost open container, or is the document.\<close>

fun push_value :: "'f json \<Rightarrow> 'f frame list \<Rightarrow> error + 'f pstate" where
  "push_value v [] = Inr (Finished v)"
| "push_value v (InArray xs # st) = Inr (Parsing (InArray (xs @ [v]) # st) CommaOrEnd)"
| "push_value v (InObject ms (Some k) # st) =
     Inr (Parsing (InObject (AList.update k v ms) None # st) CommaOrEnd)"
| "push_value v (InObject ms None # st) = Inl JSONDecodeError"

text \<open>
  Where a value is expected: a scalar is complete at once, an opening brace or bracket
  opens a container, if the interpreter allows one more level of nesting.
\<close>

definition start_value :: "'f runtime \<Rightarrow> 'f frame list \<Rightarrow> 'f token \<Rightarrow> error + 'f pstate" where
  "start_value F st t =
    (case t of
       TValue v \<Rightarrow> push_value v st
     | TLBrace \<Rightarrow>
         if recursion_limit F \<le> length st then Inl RecursionError
         else Inr (Parsing (InObject [] None # st) KeyOrEnd)
     | TLBracket \<Rightarrow>
         if recursion_limit F \<le> length st then Inl RecursionError
         else Inr (Parsing (InArray [] # st) ValueOrEnd)
     | _ \<Rightarrow> Inl JSONDecodeError)"

definition close_array :: "'f frame list \<Rightarrow> error + 'f pstate" where
  "close_array st =
    (case st of InArray xs # st' \<Rightarrow> push_value (JArr xs) st' | _ \<Rightarrow> Inl JSONDecodeError)"

definition close_object :: "'f frame list \<Rightarrow> error + 'f pstate" where
  "close_object st =
    (case st of
       InObject ms None # st' \<Rightarrow> push_value (JObj ms) st'
     | _ \<Rightarrow> Inl JSONDecodeError)"

definition read_key :: "'f frame list \<Rightarrow> 'f token \<Rightarrow> error + 'f pstate" where
  "read_key st t =
    (case (st, t) of
       (InObject ms None # st', TValue (JStr k)) \<Rightarrow> Inr (Parsing (InObject ms (Some k) # st') Colon)
     | _ \<Rightarrow> Inl JSONDecodeError)"

definition next_item :: "'f frame list \<Rightarrow> error + 'f pstate" where
  "next_item st =
    (case st of
       InArray xs # st' \<Rightarrow> Inr (Parsing st Value)
     | InObject ms None # st' \<Rightarrow> Inr (Parsing st Key)
     | _ \<Rightarrow> Inl JSONDecodeError)"

fun pda_step :: "'f runtime \<Rightarrow> 'f pstate \<Rightarrow> 'f token \<Rightarrow> error + 'f pstate" where
  "pda_step F (Finished v) t = Inl JSONDecodeError"
| "pda_step F (Parsing st Value) t = start_value F st t"
| "pda_step F (Parsing st ValueOrEnd) t =
    (case t of TRBracket \<Rightarrow> close_array st | _ \<Rightarrow> start_value F st t)"
| "pda_step F (Parsing st Key) t = read_key st t"
| "pda_step F (Parsing st KeyOrEnd) t =
    (case t of TRBrace \<Rightarrow> close_object st | _ \<Rightarrow> read_key st t)"
| "pda_step F (Parsing st Colon) t =
    (case t of TColon \<Rightarrow> Inr (Parsing st Value) | _ \<Rightarrow> Inl JSONDecodeError)"
| "pda_step F (Parsing st CommaOrEnd) t =
    (case t of
       TComma \<Rightarrow> next_item st
     | TRBracket \<Rightarrow> close_array st
     | TRBrace \<Rightarrow> close_object st
     | _ \<Rightarrow> Inl JSONDecodeError)"

text \<open>
  The decoder looks at the next character before it reads a token. Where it expects a
  value it tries every kind of value; elsewhere only the characters that can come next
  are read, and any other one is an error at once, whatever follows it.
\<close>

fun admissible :: "expect \<Rightarrow> char \<Rightarrow> bool" where
  "admissible Value c = True"
| "admissible ValueOrEnd c = True"
| "admissible Key c = (c = CHR 0x22)"
| "admissible KeyOrEnd c = (c = CHR 0x22 \<or> c = CHR ''}'')"
| "admissible Colon c = (c = CHR '':'')"
| "admissible CommaOrEnd c = (c = CHR '','' \<or> c = CHR '']'' \<or> c = CHR ''}'')"

function json_read :: "'f runtime \<Rightarrow> 'f pstate \<Rightarrow> string \<Rightarrow> error + 'f json" where
  "json_read F s cs =
    (case dropWhile is_space cs of
       [] \<Rightarrow> (case s of Finished v \<Rightarrow> Inr v | Parsing st m \<Rightarrow> Inl JSONDecodeError)
     | c # rest \<Rightarrow>
         (case s of
            Finished v \<Rightarrow> Inl JSONDecodeError
          | Parsing st m \<Rightarrow>
              if \<not> admissible m c then Inl JSONDecodeError
              else
                (case scan_token F (c # rest) of
                   Inl e \<Rightarrow> Inl e
                 | Inr (t, r) \<Rightarrow>
                     (case pda_step F s t of
                        Inl e \<Rightarrow> Inl e
                      | Inr s' \<Rightarrow> json_read F s' r))))"
  by pat_completeness auto
termination
proof (relation "measure (\<lambda>(F, s, cs). length cs)")
  show "wf (measure (\<lambda>(F :: 'f runtime, s :: 'f pstate, cs). length cs))" by simp
next
  fix F :: "'f runtime" and s s' :: "'f pstate" and cs c rest st m x t r
  assume d: "dropWhile is_space cs = c # rest"
    and st: "scan_token F (c # rest) = Inr x" and x: "(t, r) = x"
  from st x have "length r < length (c # rest)"
    using scan_token_suffix [of F "c # rest" t r] by simp
  moreover have "length (dropWhile is_space cs) \<le> length cs"
    by (rule length_dropWhile_le)
  ultimately show "((F, s', r), (F, s, cs)) \<in> measure (\<lambda>(F, s, cs). length cs)"
    using d by simp
qed

declare json_read.simps [simp del]

text \<open>\<^verbatim>\<open>json.loads(s)\<close>: the value of the document, or the exception.\<close>

definition json_loads :: "'f runtime \<Rightarrow> string \<Rightarrow> error + 'f json" where
  "json_loads F s = json_read F (Parsing [] Value) s"

text \<open>
  The tokens of a text, for the statements about it: the text is cut into tokens from
  left to right, whether or not they form a document. With the limit on integer
  literals switched off, only a text that has a part which is no token has none.
\<close>

function json_lex :: "'f runtime \<Rightarrow> string \<Rightarrow> error + 'f token list" where
  "json_lex F cs =
    (case dropWhile is_space cs of
       [] \<Rightarrow> Inr []
     | c # rest \<Rightarrow>
         (case scan_token F (c # rest) of
            Inl e \<Rightarrow> Inl e
          | Inr (t, r) \<Rightarrow>
              (case json_lex F r of Inl e \<Rightarrow> Inl e | Inr ts \<Rightarrow> Inr (t # ts))))"
  by pat_completeness auto
termination
proof (relation "measure (\<lambda>(F, cs). length cs)")
  show "wf (measure (\<lambda>(F :: 'f runtime, cs). length cs))" by simp
next
  fix F :: "'f runtime" and cs c rest x t r
  assume d: "dropWhile is_space cs = c # rest"
    and st: "scan_token F (c # rest) = Inr x" and x: "(t, r) = x"
  from st x have "length r < length (c # rest)"
    using scan_token_suffix [of F "c # rest" t r] by simp
  moreover have "length (dropWhile is_space cs) \<le> length cs"
    by (rule length_dropWhile_le)
  ultimately show "((F, r), (F, cs)) \<in> measure (\<lambda>(F, cs). length cs)"
    using d by simp
qed

declare json_lex.simps [simp del]

definition unlimited :: "'f runtime \<Rightarrow> 'f runtime" where
  "unlimited F = F\<lparr>int_max_str_digits := 0\<rparr>"

section \<open>The helpers of the proxy\<close>

text \<open>
  \<^verbatim>\<open>_JSON_RE.search(blob)\<close> for the pattern \<^verbatim>\<open>\{.*?\}\<close> with \<^verbatim>\<open>re.S\<close>: the leftmost
  match starts at the first opening brace that has a closing brace after it, which is
  the first opening brace at all when there is one; the match is lazy and the dot takes
  every character, so it ends at the first closing brace after its start. The result is
  \<^verbatim>\<open>match.group(0)\<close>.
\<close>

definition JSON_RE_search :: "string \<Rightarrow> string option" where
  "JSON_RE_search blob =
    (case dropWhile (\<lambda>c. c \<noteq> CHR ''{'') blob of
       [] \<Rightarrow> None
     | c # rest \<Rightarrow>
         if CHR ''}'' \<in> set rest
         then Some (c # takeWhile (\<lambda>c. c \<noteq> CHR ''}'') rest @ ''}'')
         else None)"

text \<open>
  \<^verbatim>\<open>_extract_first_json(blob)\<close>: no match gives \<^verbatim>\<open>None\<close>; the \<^verbatim>\<open>except\<close> clause turns
  \<^verbatim>\<open>json.JSONDecodeError\<close> into \<^verbatim>\<open>None\<close>, and any other exception of \<^verbatim>\<open>json.loads\<close>
  leaves the function.
\<close>

definition extract_first_json :: "'f runtime \<Rightarrow> string \<Rightarrow> error + 'f json option" where
  "extract_first_json F blob =
    (case JSON_RE_search blob of
       None \<Rightarrow> Inr None
     | Some m \<Rightarrow>
         (case json_loads F m of
            Inr v \<Rightarrow> Inr (Some v)
          | Inl e \<Rightarrow> if e = JSONDecodeError then Inr None else Inl e))"

text \<open>
  \<^verbatim>\<open>_unpack_content(choice)\<close>: whatever the assistant returned, the text first, then
  the tool calls, then the function call, else \<^verbatim>\<open>None\<close>. \<^verbatim>\<open>choice.get\<close> needs a dict;
  the message found under \<^verbatim>\<open>"message"\<close> is tested with \<^verbatim>\<open>in\<close> and subscripted as it is.
\<close>

definition unpack_content :: "'f json \<Rightarrow> error + 'f json" where
  "unpack_content choice =
    (case choice of
       JObj c \<Rightarrow>
         (let msg = dict_get c ''message'' (JObj []) in
          case py_contains ''content'' msg of
            Inl e \<Rightarrow> Inl e
          | Inr True \<Rightarrow> py_getitem msg ''content''
          | Inr False \<Rightarrow>
              (case py_contains ''tool_calls'' msg of
                 Inl e \<Rightarrow> Inl e
               | Inr True \<Rightarrow> py_getitem msg ''tool_calls''
               | Inr False \<Rightarrow>
                   (case py_contains ''function_call'' msg of
                      Inl e \<Rightarrow> Inl e
                    | Inr True \<Rightarrow> py_getitem msg ''function_call''
                    | Inr False \<Rightarrow> Inr JNull)))
     | _ \<Rightarrow> Inl AttributeError)"

text \<open>\<^verbatim>\<open>_relay_stream(resp)\<close>: every chunk of the upstream body, as it comes.\<close>

fun relay_stream :: "string list \<Rightarrow> string list" where
  "relay_stream [] = []"
| "relay_stream (chunk # chunks) = chunk # relay_stream chunks"

section \<open>The request transformer\<close>

definition SCHEMA_PROMPT :: string where
  \<open>SCHEMA_PROMPT =
    ''You MUST reply with pure JSON **only** (no markdown). '' @
    ''If you cannot, reply with {"status":"error","message":"Unable to comply"}.''\<close>

text \<open>
  \<^verbatim>\<open>_inject_json_schema_prompt(payload)\<close> changes the request in place. \<open>inject_run\<close>
  gives the request as the call leaves it, together with the exception that ended the
  call, if one did. The steps are the source's: \<^verbatim>\<open>pop\<close> the format, return when it is
  falsy, choose the instruction by the format's \<^verbatim>\<open>"type"\<close>, and put the system message
  in front of \<^verbatim>\<open>payload["messages"]\<close>. \<open>inject_json_schema_prompt\<close> is the same call
  seen by its caller: the changed request, or the exception.
\<close>

definition instruction_for :: "'f runtime \<Rightarrow> 'f json \<Rightarrow> error + string" where
  "instruction_for F rf =
    (case rf of
       JObj d \<Rightarrow>
         if eq_str (dict_get d ''type'' JNull) ''schemajson_'' then
           (case map_of d ''json_schema'' of
              None \<Rightarrow> Inl (KeyError ''json_schema'')
            | Some sch \<Rightarrow>
                Inr (SCHEMA_PROMPT @ '' The response MUST validate against this schema:''
                     @ [CHR 0x0A] @ json_dumps F sch))
         else Inr SCHEMA_PROMPT
     | _ \<Rightarrow> Inl AttributeError)"

definition system_message :: "string \<Rightarrow> 'f json" where
  "system_message instruction = JObj [(''role'', JStr ''system''), (''content'', JStr instruction)]"

definition inject_run :: "'f runtime \<Rightarrow> 'f dict \<Rightarrow> 'f dict \<times> error option" where
  "inject_run F payload0 =
    (let rf = dict_get payload0 ''response_format'' JNull;
         payload = AList.delete ''response_format'' payload0
     in if \<not> truthy F rf then (payload, None)
        else
          (case instruction_for F rf of
             Inl e \<Rightarrow> (payload, Some e)
           | Inr instruction \<Rightarrow>
               (case map_of payload ''messages'' of
                  None \<Rightarrow> (payload, Some (KeyError ''messages''))
                | Some (JArr ms) \<Rightarrow>
                    (AList.update ''messages'' (JArr (system_message instruction # ms)) payload,
                     None)
                | Some _ \<Rightarrow> (payload, Some TypeError))))"

definition inject_json_schema_prompt :: "'f runtime \<Rightarrow> 'f dict \<Rightarrow> error + 'f dict" where
  "inject_json_schema_prompt F payload0 =
    (case inject_run F payload0 of (payload, None) \<Rightarrow> Inr payload | (payload, Some e) \<Rightarrow> Inl e)"

section \<open>The endpoint\<close>

text \<open>
  The upstream service and the HTTP client are outside the program. An upstream
  \<open>response\<close> is its status code and its body, as the chunks of bytes that
  \<^verbatim>\<open>aiter_bytes()\<close> yields; \<^verbatim>\<open>aread()\<close> is their concatenation. The \<open>client\<close> gives
  the response of \<^verbatim>\<open>client.post\<close> to a request body (or the exception of a failed
  transport), the response of \<^verbatim>\<open>client.stream\<close>, and the decoding of bytes into text,
  which is \<open>None\<close> where \<^verbatim>\<open>decode()\<close> raises.
\<close>

record response =
  status_code :: nat
  aiter_bytes :: "string list"

record 'f client =
  post :: "'f dict \<Rightarrow> error + response"
  stream :: "'f dict \<Rightarrow> response"
  decode :: "string \<Rightarrow> string option"

datatype 'f reply =
    StreamingResponse "string list"
  | JSONResponse "'f json" nat

definition REFUSAL :: "'f json" where
  "REFUSAL = JObj [(''status'', JStr ''error''),
                   (''message'', JStr ''LLM did not return standalone JSON'')]"

text \<open>\<^verbatim>\<open>resp.json()\<close>: the body, decoded and parsed.\<close>

definition response_json :: "'f runtime \<Rightarrow> 'f client \<Rightarrow> response \<Rightarrow> error + 'f json" where
  "response_json F C resp =
    (case decode C (concat (aiter_bytes resp)) of
       None \<Rightarrow> Inl UnicodeDecodeError
     | Some s \<Rightarrow> json_loads F s)"

text \<open>\<^verbatim>\<open>data["choices"][0]\<close>.\<close>

definition first_choice :: "'f json \<Rightarrow> error + 'f json" where
  "first_choice data =
    (case py_getitem data ''choices'' of Inl e \<Rightarrow> Inl e | Inr choices \<Rightarrow> py_getitem0 choices)"

text \<open>
  Lines 130 to 134 of the source: the content of the first choice, the JSON object found
  in it when it is text, and the refusal, which is set when \<^verbatim>\<open>body.get("response_format")\<close>
  is truthy and nothing was parsed. \<open>body\<close> is the request as the transformer left it.
\<close>

definition parsed_of :: "'f runtime \<Rightarrow> 'f json \<Rightarrow> error + 'f json option" where
  "parsed_of F raw_content =
    (case raw_content of JStr s \<Rightarrow> extract_first_json F s | _ \<Rightarrow> Inr None)"

definition refusal_of :: "'f runtime \<Rightarrow> 'f dict \<Rightarrow> 'f json option \<Rightarrow> 'f json" where
  "refusal_of F body parsed =
    (if truthy F (dict_get body ''response_format'' JNull)
     then (case parsed of None \<Rightarrow> REFUSAL | Some v \<Rightarrow> JNull)
     else JNull)"

definition json_of_option :: "'f json option \<Rightarrow> 'f json" where
  "json_of_option p = (case p of None \<Rightarrow> JNull | Some v \<Rightarrow> v)"

text \<open>
  Lines 137 and 138: \<^verbatim>\<open>setdefault\<close> the message and its \<^verbatim>\<open>additional_kwargs\<close>, then
  \<^verbatim>\<open>update\<close> the latter with the two keys. The result is the first choice after the
  change; a message or an \<^verbatim>\<open>additional_kwargs\<close> that is not a dict has no such method.
\<close>

definition expose :: "'f dict \<Rightarrow> 'f json \<Rightarrow> 'f json \<Rightarrow> error + 'f dict" where
  "expose choice0 parsed refusal =
    (let (m, choice1) = dict_setdefault choice0 ''message'' (JObj []) in
     case m of
       JObj msg \<Rightarrow>
         (let (ak, msg1) = dict_setdefault msg ''additional_kwargs'' (JObj []) in
          case ak of
            JObj kw \<Rightarrow>
              Inr (AList.update ''message''
                    (JObj (AList.update ''additional_kwargs''
                            (JObj (AList.update ''refusal'' refusal
                                    (AList.update ''parsed'' parsed kw))) msg1)) choice1)
          | _ \<Rightarrow> Inl AttributeError)
     | _ \<Rightarrow> Inl AttributeError)"

text \<open>
  \<^verbatim>\<open>JSONResponse(content=data)\<close> renders the reply when it is made, with
  \<^verbatim>\<open>json.dumps(..., ensure_ascii=False, allow_nan=False)\<close> and \<^verbatim>\<open>encode("utf-8")\<close>: a
  float that is not finite is a \<^verbatim>\<open>ValueError\<close>, and a text with a surrogate in it a
  \<^verbatim>\<open>UnicodeEncodeError\<close>.
\<close>

fun nonfinite :: "'f runtime \<Rightarrow> 'f json \<Rightarrow> bool" where
  "nonfinite F (JFloat x) = (\<not> float_is_finite F x)"
| "nonfinite F (JArr xs) = list_ex (nonfinite F) xs"
| "nonfinite F (JObj d) = list_ex (\<lambda>(k, v). nonfinite F v) d"
| "nonfinite F JNull = False"
| "nonfinite F (JBool b) = False"
| "nonfinite F (JInt i) = False"
| "nonfinite F (JStr s) = False"

definition surrogate_in :: "string \<Rightarrow> bool" where
  "surrogate_in s = list_ex (\<lambda>n. 0xD800 \<le> n \<and> n \<le> 0xDFFF) (code_points 0 0 s)"

fun has_surrogate :: "'f json \<Rightarrow> bool" where
  "has_surrogate (JStr s) = surrogate_in s"
| "has_surrogate (JArr xs) = list_ex has_surrogate xs"
| "has_surrogate (JObj d) = list_ex (\<lambda>(k, v). surrogate_in k \<or> has_surrogate v) d"
| "has_surrogate JNull = False"
| "has_surrogate (JBool b) = False"
| "has_surrogate (JInt i) = False"
| "has_surrogate (JFloat x) = False"

definition render :: "'f runtime \<Rightarrow> 'f json \<Rightarrow> nat \<Rightarrow> error + 'f reply" where
  "render F data code =
    (if nonfinite F data then Inl ValueError
     else if has_surrogate data then Inl UnicodeEncodeError
     else Inr (JSONResponse data code))"

text \<open>The one-shot path after the status check, from \<^verbatim>\<open>resp.json()\<close> to the reply.\<close>

definition postprocess ::
  "'f runtime \<Rightarrow> 'f client \<Rightarrow> 'f dict \<Rightarrow> response \<Rightarrow> error + 'f reply" where
  "postprocess F C body resp =
    (case response_json F C resp of
       Inl e \<Rightarrow> Inl e
     | Inr data \<Rightarrow>
         (case first_choice data of
            Inl e \<Rightarrow> Inl e
          | Inr choice0 \<Rightarrow>
              (case unpack_content choice0 of
                 Inl e \<Rightarrow> Inl e
               | Inr raw_content \<Rightarrow>
                   (case parsed_of F raw_content of
                      Inl e \<Rightarrow> Inl e
                    | Inr parsed \<Rightarrow>
                        (let refusal = refusal_of F body parsed
                         in case (data, choice0) of
                              (JObj d, JObj c0) \<Rightarrow>
                                (case expose c0 (json_of_option parsed) refusal of
                                   Inl e \<Rightarrow> Inl e
                                 | Inr c0' \<Rightarrow>
                                     (case map_of d ''choices'' of
                                        Some (JArr (x # rest)) \<Rightarrow>
                                          render F
                                            (JObj (AList.update ''choices''
                                                     (JArr (JObj c0' # rest)) d))
                                            200
                                      | _ \<Rightarrow> Inl TypeError))
                            | _ \<Rightarrow> Inl AttributeError)))))"

text \<open>
  \<^verbatim>\<open>chat_completions\<close>, for a request body that is a dict. The stream flag is read
  before the transformer runs. The second test of the flag, after the status check,
  is in the source and is kept, though the first one has returned by then.
\<close>

definition chat_completions ::
  "'f runtime \<Rightarrow> 'f client \<Rightarrow> 'f dict \<Rightarrow> error + 'f reply" where
  "chat_completions F C body0 =
    (let stream_flag = truthy F (dict_get body0 ''stream'' (JBool False)) in
     case inject_json_schema_prompt F body0 of
       Inl e \<Rightarrow> Inl e
     | Inr body \<Rightarrow>
         if stream_flag then Inr (StreamingResponse (relay_stream (aiter_bytes (stream C body))))
         else
           (case post C body of
              Inl e \<Rightarrow> Inl e
            | Inr resp \<Rightarrow>
                if status_code resp \<noteq> 200 then
                  (case decode C (concat (aiter_bytes resp)) of
                     None \<Rightarrow> Inl UnicodeDecodeError
                   | Some detail \<Rightarrow> Inl (HTTPException (status_code resp) detail))
                else if stream_flag then
                  Inr (StreamingResponse (relay_stream (aiter_bytes resp)))
                else postprocess F C body resp))"

text \<open>
  An error that the framework reports to the caller as a client error: an
  \<^verbatim>\<open>HTTPException\<close> with a status code from 400 to 499. Every other exception that
  leaves the handler is an internal error.
\<close>

definition client_error :: "error \<Rightarrow> bool" where
  "client_error e = (case e of HTTPException code detail \<Rightarrow> 400 \<le> code \<and> code < 500 | _ \<Rightarrow> False)"

text \<open>
  Measures of a parser state for the proofs: the number of dicts that are open, the
  number of containers that are open, and whether the outermost open container (or the
  finished document) is a dict.
\<close>

fun is_object_frame :: "'f frame \<Rightarrow> bool" where
  "is_object_frame (InObject ms k) = True"
| "is_object_frame (InArray xs) = False"



fun rooted_in_object :: "'f pstate \<Rightarrow> bool" where
  "rooted_in_object (Parsing st m) = (st \<noteq> [] \<and> is_object_frame (last st))"
| "rooted_in_object (Finished v) = (case v of JObj d \<Rightarrow> True | _ \<Rightarrow> False)"

definition lbraces :: "'f token list \<Rightarrow> nat" where
  "lbraces ts = length (filter (\<lambda>t. case t of TLBrace \<Rightarrow> True | _ \<Rightarrow> False) ts)"

definition rbraces :: "'f token list \<Rightarrow> nat" where
  "rbraces ts = length (filter (\<lambda>t. case t of TRBrace \<Rightarrow> True | _ \<Rightarrow> False) ts)"

section \<open>Closed examples\<close>

text \<open>
  The examples below need a runtime. \<open>text_floats\<close> has the limits that CPython starts
  with: 4300 digits, and a recursion limit of 1000, all of it left to \<^verbatim>\<open>json.loads\<close>,
  though a running program has used a part (the example of nesting is a hundred times
  deeper). It keeps a float as the text of its literal: it is not finite when the literal is \<^verbatim>\<open>NaN\<close> or one of the infinities, zero
  when it is finite and no digit before the exponent differs from \<^verbatim>\<open>0\<close>, and printed
  as the literal. This agrees with Python as long as a literal neither overflows nor
  underflows and is written the way \<^verbatim>\<open>repr\<close> writes it. None of the examples has a
  float in it.
\<close>

definition text_floats :: "string runtime" where
  "text_floats =
    \<lparr>float_is_zero =
       (\<lambda>s. s \<noteq> ''NaN'' \<and> s \<noteq> ''Infinity'' \<and> s \<noteq> ''-Infinity'' \<and>
            list_all (\<lambda>c. c \<notin> set ''123456789'')
              (takeWhile (\<lambda>c. c \<noteq> CHR ''e'' \<and> c \<noteq> CHR ''E'') s)),
     float_is_finite = (\<lambda>s. s \<noteq> ''NaN'' \<and> s \<noteq> ''Infinity'' \<and> s \<noteq> ''-Infinity''),
     float_repr = (\<lambda>s. s),
     float_of_literal = (\<lambda>s. s),
     int_max_str_digits = 4300,
     recursion_limit = 1000\<rparr>"

text \<open>An upstream that answers every request with the given status and body.\<close>

definition const_client :: "nat \<Rightarrow> string list \<Rightarrow> 'f client" where
  "const_client code chunks =
    \<lparr>post = (\<lambda>body. Inr \<lparr>status_code = code, aiter_bytes = chunks\<rparr>),
     stream = (\<lambda>body. \<lparr>status_code = code, aiter_bytes = chunks\<rparr>),
     decode = Some\<rparr>"

section \<open>Properties of the request transformer\<close>

lemma inject_falsy:
  "\<not> truthy F (dict_get payload ''response_format'' JNull) \<Longrightarrow>
   inject_json_schema_prompt F payload = Inr (AList.delete ''response_format'' payload)"
  by (simp add: inject_json_schema_prompt_def inject_run_def)

lemma inject_Inr_cases:
  assumes "inject_json_schema_prompt F payload = Inr p'"
  shows "p' = AList.delete ''response_format'' payload \<or>
         (\<exists>v. p' = AList.update ''messages'' v (AList.delete ''response_format'' payload))"
  using assms
  by (auto simp: inject_json_schema_prompt_def inject_run_def Let_def
      split: if_splits sum.splits option.splits json.splits)

lemma inject_removes_format:
  assumes "inject_json_schema_prompt F payload = Inr p'"
  shows "map_of p' ''response_format'' = None"
  using inject_Inr_cases [OF assms]
  by (auto simp: update_conv' delete_conv')

lemma inject_format_gone:
  assumes "inject_json_schema_prompt F payload = Inr p'"
  shows "dict_get p' ''response_format'' JNull = JNull"
  using inject_removes_format [OF assms] by (simp add: dict_get_def)

lemma inject_other_fields:
  assumes "inject_json_schema_prompt F payload = Inr p'"
  shows "AList.delete ''messages'' p' =
         AList.delete ''messages'' (AList.delete ''response_format'' payload)"
  using inject_Inr_cases [OF assms]
  by (auto simp: delete_update_same)

lemma inject_json_object:
  assumes rf: "map_of payload ''response_format'' = Some (JObj d)"
    and ty: "map_of d ''type'' = Some (JStr ''json_object'')"
    and ms: "map_of payload ''messages'' = Some (JArr ms)"
  shows "inject_json_schema_prompt F payload =
         Inr (AList.update ''messages'' (JArr (system_message SCHEMA_PROMPT # ms))
               (AList.delete ''response_format'' payload))"
proof -
  from ty have "d \<noteq> []" by auto
  with rf have t: "truthy F (dict_get payload ''response_format'' JNull)"
    by (simp add: dict_get_def)
  from ty have i: "instruction_for F (JObj d) = Inr SCHEMA_PROMPT"
    by (simp add: instruction_for_def dict_get_def eq_str_def)
  from ms have m: "map_of (AList.delete ''response_format'' payload) ''messages'' = Some (JArr ms)"
    by simp
  from rf t i m show ?thesis
    by (simp add: inject_json_schema_prompt_def inject_run_def dict_get_def)
qed

lemma refusal_after_inject:
  assumes "inject_json_schema_prompt F body0 = Inr body"
  shows "refusal_of F body parsed = JNull"
  using inject_format_gone [OF assms] by (simp add: refusal_of_def)

lemma instruction_for_errors:
  "instruction_for F rf = Inl e \<Longrightarrow> e = KeyError ''json_schema'' \<or> e = AttributeError"
  by (auto simp: instruction_for_def split: json.splits if_splits option.splits)

lemma inject_run_errors:
  assumes "inject_run F payload = (p, Some e)"
  shows "e = KeyError ''json_schema'' \<or> e = KeyError ''messages'' \<or> e = AttributeError
         \<or> e = TypeError"
  using assms instruction_for_errors [of F "dict_get payload ''response_format'' JNull"]
  by (auto simp: inject_run_def Let_def split: if_splits sum.splits option.splits json.splits)

lemma inject_no_client_error:
  assumes "inject_json_schema_prompt F payload = Inl e"
  shows "\<not> client_error e"
proof -
  from assms obtain p where "inject_run F payload = (p, Some e)"
    by (auto simp: inject_json_schema_prompt_def split: prod.splits option.splits)
  from inject_run_errors [OF this] show ?thesis
    by (auto simp: client_error_def)
qed

lemma relay_stream_id: "relay_stream chunks = chunks"
  by (induction chunks) simp_all

section \<open>Properties of the JSON reader\<close>

text \<open>Reading a text whose first character is known, for evaluation.\<close>

lemma json_read_Nil:
  "json_read F s [] = (case s of Finished v \<Rightarrow> Inr v | Parsing st m \<Rightarrow> Inl JSONDecodeError)"
  by (simp add: json_read.simps)

lemma json_read_Cons:
  "json_read F s (c # cs) =
    (if is_space c then json_read F s cs
     else case s of
            Finished v \<Rightarrow> Inl JSONDecodeError
          | Parsing st m \<Rightarrow>
              if \<not> admissible m c then Inl JSONDecodeError
              else (case scan_token F (c # cs) of
                      Inl e \<Rightarrow> Inl e
                    | Inr (t, r) \<Rightarrow>
                        (case pda_step F s t of
                           Inl e \<Rightarrow> Inl e
                         | Inr s' \<Rightarrow> json_read F s' r)))"
  by (subst json_read.simps, subst (2) json_read.simps) (simp split: list.splits)

lemma json_lex_Nil: "json_lex F [] = Inr []"
  by (simp add: json_lex.simps)

lemma json_lex_Cons:
  "json_lex F (c # cs) =
    (if is_space c then json_lex F cs
     else case scan_token F (c # cs) of
            Inl e \<Rightarrow> Inl e
          | Inr (t, r) \<Rightarrow> (case json_lex F r of Inl e \<Rightarrow> Inl e | Inr ts \<Rightarrow> Inr (t # ts)))"
  by (subst json_lex.simps, subst (2) json_lex.simps) (simp split: list.splits)

lemmas json_eval =
  extract_first_json_def JSON_RE_search_def json_loads_def json_read_Nil json_read_Cons
  json_lex_Nil json_lex_Cons scan_token_def punct_def is_space_def scanstring.simps
  number_parts_def number_value_def scan_sign_def scan_int_part_def scan_frac_def scan_exp_def
  is_digit_def constants_def start_value_def close_object_def close_array_def read_key_def
  next_item_def unescape_def

lemmas endpoint_eval =
  chat_completions_def postprocess_def response_json_def first_choice_def unpack_content_def
  parsed_of_def refusal_of_def json_of_option_def expose_def render_def dict_get_def
  dict_setdefault_def inject_json_schema_prompt_def inject_run_def instruction_for_def
  eq_str_def system_message_def surrogate_in_def const_client_def text_floats_def

lemma json_read_end:
  "dropWhile is_space cs = [] \<Longrightarrow>
   json_read F s cs = (case s of Finished v \<Rightarrow> Inr v | Parsing st m \<Rightarrow> Inl JSONDecodeError)"
  by (subst json_read.simps) (simp del: dropWhile_eq_Nil_conv)

lemma json_read_token:
  "dropWhile is_space cs = c # rest \<Longrightarrow>
   json_read F s cs =
     (case s of
        Finished v \<Rightarrow> Inl JSONDecodeError
      | Parsing st m \<Rightarrow>
          if \<not> admissible m c then Inl JSONDecodeError
          else (case scan_token F (c # rest) of
                  Inl e \<Rightarrow> Inl e
                | Inr (t, r) \<Rightarrow>
                    (case pda_step F s t of
                       Inl e \<Rightarrow> Inl e
                     | Inr s' \<Rightarrow> json_read F s' r)))"
  by (subst json_read.simps) simp

lemma json_read_Inr_step:
  assumes "json_read F s cs = Inr v" "dropWhile is_space cs = c # rest"
  obtains st m t r s' where "s = Parsing st m" "admissible m c"
    "scan_token F (c # rest) = Inr (t, r)" "pda_step F s t = Inr s'" "json_read F s' r = Inr v"
  using assms
  by (auto simp: json_read_token [OF assms(2)] split: pstate.splits if_splits sum.splits)

subsection \<open>Braces\<close>

lemma lbraces_simps [simp]:
  "lbraces [] = 0"
  "lbraces (TLBrace # ts) = Suc (lbraces ts)"
  "lbraces (TRBrace # ts) = lbraces ts"
  "lbraces (TLBracket # ts) = lbraces ts"
  "lbraces (TRBracket # ts) = lbraces ts"
  "lbraces (TColon # ts) = lbraces ts"
  "lbraces (TComma # ts) = lbraces ts"
  "lbraces (TValue v # ts) = lbraces ts"
  by (simp_all add: lbraces_def)

lemma rbraces_simps [simp]:
  "rbraces [] = 0"
  "rbraces (TRBrace # ts) = Suc (rbraces ts)"
  "rbraces (TLBrace # ts) = rbraces ts"
  "rbraces (TLBracket # ts) = rbraces ts"
  "rbraces (TRBracket # ts) = rbraces ts"
  "rbraces (TColon # ts) = rbraces ts"
  "rbraces (TComma # ts) = rbraces ts"
  "rbraces (TValue v # ts) = rbraces ts"
  by (simp_all add: rbraces_def)












text \<open>A number that is converted under a limit comes out the same without the limit.\<close>

lemma unlimited_simps [simp]:
  "int_max_str_digits (unlimited F) = 0"
  "float_of_literal (unlimited F) = float_of_literal F"
  "recursion_limit (unlimited F) = recursion_limit F"
  by (simp_all add: unlimited_def)


lemma constants_unlimited [simp]: "constants (unlimited F) = constants F"
  by (simp add: constants_def)




subsection \<open>Exceptions\<close>


















subsection \<open>A document that starts with a brace is a dict\<close>

lemma push_value_rooted:
  "push_value v st = Inr s' \<Longrightarrow> st \<noteq> [] \<Longrightarrow> is_object_frame (last st) \<Longrightarrow>
   rooted_in_object s'"
  by (induction v st rule: push_value.induct) (auto split: if_splits)

lemma start_value_rooted:
  "start_value F st t = Inr s' \<Longrightarrow> st \<noteq> [] \<Longrightarrow> is_object_frame (last st) \<Longrightarrow>
   rooted_in_object s'"
  by (cases t) (auto simp: start_value_def dest: push_value_rooted split: if_splits)

lemma close_array_rooted:
  assumes "close_array st = Inr s'" "st \<noteq> []" "is_object_frame (last st)"
  shows "rooted_in_object s'"
proof -
  from assms(1) obtain xs st' where st: "st = InArray xs # st'"
    and p: "push_value (JArr xs) st' = Inr s'"
    by (auto simp: close_array_def split: list.splits frame.splits)
  from st assms(3) have "st' \<noteq> []" by auto
  with st assms(3) push_value_rooted [OF p] show ?thesis by simp
qed

lemma close_object_rooted:
  assumes "close_object st = Inr s'" "st \<noteq> []" "is_object_frame (last st)"
  shows "rooted_in_object s'"
proof -
  from assms(1) obtain ms st' where st: "st = InObject ms None # st'"
    and p: "push_value (JObj ms) st' = Inr s'"
    by (auto simp: close_object_def split: list.splits frame.splits option.splits)
  show ?thesis
  proof (cases st')
    case Nil
    with p show ?thesis by auto
  next
    case (Cons f fs)
    with st assms(3) push_value_rooted [OF p] show ?thesis by simp
  qed
qed

lemma read_key_rooted:
  "read_key st t = Inr s' \<Longrightarrow> st \<noteq> [] \<Longrightarrow> is_object_frame (last st) \<Longrightarrow>
   rooted_in_object s'"
  by (auto simp: read_key_def
      split: list.splits frame.splits option.splits token.splits json.splits if_splits)

lemma next_item_rooted:
  "next_item st = Inr s' \<Longrightarrow> st \<noteq> [] \<Longrightarrow> is_object_frame (last st) \<Longrightarrow>
   rooted_in_object s'"
  by (auto simp: next_item_def split: list.splits frame.splits option.splits if_splits)

lemma pda_step_rooted:
  assumes "pda_step F s t = Inr s'" "rooted_in_object s"
  shows "rooted_in_object s'"
proof (cases s)
  case (Finished v)
  with assms show ?thesis by simp
next
  case (Parsing st m)
  with assms(2) have r: "st \<noteq> []" "is_object_frame (last st)" by simp_all
  note rules = start_value_rooted [OF _ r] close_array_rooted [OF _ r]
    close_object_rooted [OF _ r] read_key_rooted [OF _ r] next_item_rooted [OF _ r]
  show ?thesis
  proof (cases m)
    case Value
    with assms(1) Parsing rules show ?thesis by simp
  next
    case ValueOrEnd
    with assms(1) Parsing rules show ?thesis by (cases t) simp_all
  next
    case Key
    with assms(1) Parsing rules show ?thesis by simp
  next
    case KeyOrEnd
    with assms(1) Parsing rules show ?thesis by (cases t) simp_all
  next
    case Colon
    with assms(1) Parsing r show ?thesis by (cases t) auto
  next
    case CommaOrEnd
    with assms(1) Parsing rules show ?thesis by (cases t) simp_all
  qed
qed

lemma json_read_rooted:
  "json_read F s cs = Inr v \<Longrightarrow> rooted_in_object s \<Longrightarrow> \<exists>d. v = JObj d"
proof (induction F s cs rule: json_read.induct)
  case (1 F s cs)
  show ?case
  proof (cases "dropWhile is_space cs")
    case Nil
    with "1.prems" show ?thesis
      by (cases s; cases v) (auto simp: json_read_end)
  next
    case (Cons c rest)
    from "1.prems"(1) Cons obtain st m t r s' where
      s: "s = Parsing st m" and ad: "admissible m c" and
      tk: "scan_token F (c # rest) = Inr (t, r)" and
      ps: "pda_step F s t = Inr s'" and rd: "json_read F s' r = Inr v"
      by (rule json_read_Inr_step)
    from ad have ad': "\<not> \<not> admissible m c" by simp
    from "1.IH" [OF Cons s ad' tk refl ps rd pda_step_rooted [OF ps "1.prems"(2)]]
    show ?thesis .
  qed
qed

lemma json_loads_object:
  assumes "json_loads F (CHR ''{'' # cs) = Inr v"
  shows "\<exists>d. v = JObj d"
proof -
  have tk: "scan_token F (CHR ''{'' # cs) = Inr (TLBrace, cs)"
    by (simp add: scan_token_def punct_def)
  from assms tk have "json_read F (Parsing [InObject [] None] KeyOrEnd) cs = Inr v"
    by (simp add: json_loads_def json_read_Cons is_space_def start_value_def
        split: if_splits)
  from json_read_rooted [OF this] show ?thesis by simp
qed

subsection \<open>The candidate of the pattern\<close>

lemma JSON_RE_search_span:
  assumes "CHR ''{'' \<notin> set pre" "CHR ''}'' \<notin> set mid"
  shows "JSON_RE_search (pre @ CHR ''{'' # mid @ CHR ''}'' # suf) = Some (CHR ''{'' # mid @ ''}'')"
proof -
  from assms(1) have "dropWhile (\<lambda>c. c \<noteq> CHR ''{'') (pre @ CHR ''{'' # mid @ CHR ''}'' # suf)
      = CHR ''{'' # mid @ CHR ''}'' # suf"
    by (subst dropWhile_append2) auto
  moreover from assms(2) have "takeWhile (\<lambda>c. c \<noteq> CHR ''}'') (mid @ CHR ''}'' # suf) = mid"
    by (subst takeWhile_append2) auto
  ultimately show ?thesis by (simp add: JSON_RE_search_def)
qed

lemma JSON_RE_search_Some:
  assumes "JSON_RE_search blob = Some m"
  shows "\<exists>pre mid suf. blob = pre @ CHR ''{'' # mid @ CHR ''}'' # suf
           \<and> CHR ''{'' \<notin> set pre \<and> CHR ''}'' \<notin> set mid \<and> m = CHR ''{'' # mid @ ''}''"
proof -
  let ?P = "\<lambda>c. c \<noteq> CHR ''{''" and ?Q = "\<lambda>c. c \<noteq> CHR ''}''"
  from assms obtain c rest where d: "dropWhile ?P blob = c # rest"
    and e: "CHR ''}'' \<in> set rest" and m: "m = c # takeWhile ?Q rest @ ''}''"
    by (auto simp: JSON_RE_search_def split: list.splits if_splits)
  from d have c: "c = CHR ''{''"
    using hd_dropWhile [of ?P blob] by auto
  have b: "blob = takeWhile ?P blob @ c # rest"
    using takeWhile_dropWhile_id [of ?P blob] d by simp
  from e have "dropWhile ?Q rest \<noteq> []" by (simp add: dropWhile_eq_Nil_conv)
  then obtain suf where p: "dropWhile ?Q rest = CHR ''}'' # suf"
    using hd_dropWhile [of ?Q rest] by (cases "dropWhile ?Q rest") auto
  have r: "rest = takeWhile ?Q rest @ CHR ''}'' # suf"
    using takeWhile_dropWhile_id [of ?Q rest] p by simp
  have 1: "CHR ''{'' \<notin> set (takeWhile ?P blob)" by (auto dest: set_takeWhileD)
  have 2: "CHR ''}'' \<notin> set (takeWhile ?Q rest)" by (auto dest: set_takeWhileD)
  from b r c have "blob = takeWhile ?P blob @ CHR ''{'' # takeWhile ?Q rest @ CHR ''}'' # suf"
    by simp
  with 1 2 m c show ?thesis by blast
qed

lemma JSON_RE_search_None:
  assumes "\<forall>pre mid suf. blob \<noteq> pre @ CHR ''{'' # mid @ CHR ''}'' # suf"
  shows "JSON_RE_search blob = None"
proof (cases "JSON_RE_search blob")
  case None
  then show ?thesis .
next
  case (Some m)
  from JSON_RE_search_Some [OF this] assms show ?thesis by blast
qed


subsection \<open>Texts beyond the limits\<close>

lemma takeWhile_ones:
  "takeWhile is_digit (replicate n (CHR ''1'') @ CHR ''}'' # r) = replicate n (CHR ''1'')"
  by (induction n) (simp_all add: is_digit_def)

lemma dropWhile_ones:
  "dropWhile is_digit (replicate n (CHR ''1'') @ CHR ''}'' # r) = CHR ''}'' # r"
  by (induction n) (simp_all add: is_digit_def)

lemma number_parts_ones:
  "number_parts (CHR ''1'' # replicate k (CHR ''1'') @ CHR ''}'' # r)
     = Some (([], CHR ''1'' # replicate k (CHR ''1''), [], []), CHR ''}'' # r)"
  by (simp add: number_parts_def scan_sign_def scan_int_part_def scan_frac_def scan_exp_def
      takeWhile_ones dropWhile_ones is_digit_def split: list.splits)

lemma scan_token_long_int:
  assumes "0 < int_max_str_digits F" "int_max_str_digits F \<le> k"
  shows "scan_token F (CHR ''1'' # replicate k (CHR ''1'') @ CHR ''}'' # r) = Inl ValueError"
  using assms
  by (simp add: scan_token_def punct_def constants_def number_parts_ones number_value_def)

lemma json_read_long_int:
  assumes "0 < int_max_str_digits F" "int_max_str_digits F < n"
  shows "json_read F (Parsing st Value) (replicate n (CHR ''1'') @ CHR ''}'' # r)
         = Inl ValueError"
proof -
  from assms(2) obtain k where n: "n = Suc k" by (cases n) auto
  with assms(2) have "int_max_str_digits F \<le> k" by simp
  from scan_token_long_int [OF assms(1) this, of r] n show ?thesis
    by (simp add: json_read_Cons is_space_def)
qed

lemma json_read_deep:
  assumes "recursion_limit F < length st + n" "0 < n" "m = Value \<or> m = ValueOrEnd"
  shows "json_read F (Parsing st m) (replicate n (CHR ''['') @ r) = Inl RecursionError"
  using assms
proof (induction n arbitrary: st m)
  case 0
  then show ?case by simp
next
  case (Suc n)
  have tk: "scan_token F (CHR ''['' # cs) = Inr (TLBracket, cs)" for cs
    by (simp add: scan_token_def punct_def)
  show ?case
  proof (cases "recursion_limit F \<le> length st")
    case True
    with Suc.prems(3) show ?thesis
      by (auto simp: json_read_Cons is_space_def tk start_value_def)
  next
    case False
    with Suc.prems(1) have "recursion_limit F < length (InArray [] # st) + n" "0 < n"
      by simp_all
    from Suc.IH [OF this, of ValueOrEnd]
    have "json_read F (Parsing (InArray [] # st) ValueOrEnd)
            (replicate n (CHR ''['') @ r) = Inl RecursionError" by simp
    with False Suc.prems(3) show ?thesis
      by (auto simp: json_read_Cons is_space_def tk start_value_def)
  qed
qed

lemma json_loads_member:
  assumes "0 < recursion_limit F"
  shows \<open>json_loads F (''{"a":'' @ cs) = json_read F (Parsing [InObject [] (Some ''a'')] Value) cs\<close>
  using assms by (simp add: json_eval)

lemma json_loads_member2:
  assumes "1 < recursion_limit F"
  shows \<open>json_loads F (''{"a":{"b":'' @ cs)
       = json_read F (Parsing [InObject [] (Some ''b''), InObject [] (Some ''a'')] Value) cs\<close>
  using assms by (simp add: json_eval)

text \<open>
  An integer literal with more digits than the limit, in a candidate that is otherwise a
  document or has a nested dict, and a candidate with more open lists than the
  interpreter allows: the exception is not a \<^verbatim>\<open>JSONDecodeError\<close> and leaves
  \<^verbatim>\<open>_extract_first_json\<close>.
\<close>

lemma extract_first_json_long_int:
  assumes "0 < recursion_limit F" "0 < int_max_str_digits F" "int_max_str_digits F < n"
  shows \<open>extract_first_json F (''{"a":'' @ replicate n (CHR ''1'') @ ''}'') = Inl ValueError\<close>
proof -
  have s: \<open>JSON_RE_search (''{"a":'' @ replicate n (CHR ''1'') @ ''}'')
      = Some (''{"a":'' @ replicate n (CHR ''1'') @ ''}'')\<close>
    using JSON_RE_search_span [of "[]" \<open>''"a":'' @ replicate n (CHR ''1'')\<close> "[]"]
    by simp
  have \<open>json_loads F (''{"a":'' @ replicate n (CHR ''1'') @ ''}'') = Inl ValueError\<close>
    unfolding json_loads_member [OF assms(1)] by (rule json_read_long_int [OF assms(2,3)])
  with s show ?thesis
    by (simp only: extract_first_json_def option.case sum.case error.simps if_False)
qed

lemma extract_first_json_nested_long_int:
  assumes "1 < recursion_limit F" "0 < int_max_str_digits F" "int_max_str_digits F < n"
  shows \<open>extract_first_json F (''{"a":{"b":'' @ replicate n (CHR ''1'') @ ''}}'') = Inl ValueError\<close>
proof -
  have s: \<open>JSON_RE_search (''{"a":{"b":'' @ replicate n (CHR ''1'') @ ''}}'')
      = Some (''{"a":{"b":'' @ replicate n (CHR ''1'') @ ''}'')\<close>
    using JSON_RE_search_span [of "[]" \<open>''"a":{"b":'' @ replicate n (CHR ''1'')\<close> "''}''"]
    by simp
  have \<open>json_loads F (''{"a":{"b":'' @ replicate n (CHR ''1'') @ ''}'') = Inl ValueError\<close>
    unfolding json_loads_member2 [OF assms(1)] by (rule json_read_long_int [OF assms(2,3)])
  with s show ?thesis
    by (simp only: extract_first_json_def option.case sum.case error.simps if_False)
qed

lemma extract_first_json_deep:
  assumes "0 < recursion_limit F" "recursion_limit F \<le> n"
  shows \<open>extract_first_json F (''{"a":'' @ replicate n (CHR ''['') @ ''}'') = Inl RecursionError\<close>
proof -
  have s: \<open>JSON_RE_search (''{"a":'' @ replicate n (CHR ''['') @ ''}'')
      = Some (''{"a":'' @ replicate n (CHR ''['') @ ''}'')\<close>
    using JSON_RE_search_span [of "[]" \<open>''"a":'' @ replicate n (CHR ''['')\<close> "[]"]
    by simp
  from assms have lim: "recursion_limit F < length [InObject [] (Some ''a'') :: 'a frame] + n"
    "0 < n" by simp_all
  have \<open>json_loads F (''{"a":'' @ replicate n (CHR ''['') @ ''}'') = Inl RecursionError\<close>
    unfolding json_loads_member [OF assms(1)] by (rule json_read_deep [OF lim]) simp
  with s show ?thesis
    by (simp only: extract_first_json_def option.case sum.case error.simps if_False)
qed

section \<open>The claims\<close>

text \<open>
  C5. On a streamed call (the caller's \<^verbatim>\<open>stream\<close> is truthy) that passes the request
  transformer, the reply is a streaming response whose chunks are exactly the chunks of
  the upstream body for the transformed request: the same chunks, in the same order,
  none changed.
\<close>

theorem C5_stream_relay_identity:
  assumes "truthy F (dict_get body0 ''stream'' (JBool False))"
    and "inject_json_schema_prompt F body0 = Inr body"
  shows "chat_completions F C body0 = Inr (StreamingResponse (aiter_bytes (stream C body)))"
  using assms by (simp add: chat_completions_def relay_stream_id)

theorem C5_stream_relay_identity_witness:
  "truthy text_floats (dict_get [(''stream'', JBool True), (''messages'', JArr [])] ''stream'' (JBool False))
   \<and> inject_json_schema_prompt text_floats [(''stream'', JBool True), (''messages'', JArr [])]
       = Inr [(''stream'', JBool True), (''messages'', JArr [])]
   \<and> chat_completions text_floats (const_client 200 [''data: a'', ''data: b''])
         [(''stream'', JBool True), (''messages'', JArr [])]
       = Inr (StreamingResponse [''data: a'', ''data: b''])"
proof -
  have h1: "truthy text_floats
      (dict_get [(''stream'', JBool True), (''messages'', JArr [])] ''stream'' (JBool False))"
    by (simp add: dict_get_def)
  have h2: "inject_json_schema_prompt text_floats [(''stream'', JBool True), (''messages'', JArr [])]
      = Inr [(''stream'', JBool True), (''messages'', JArr [])]"
    by (simp add: inject_json_schema_prompt_def inject_run_def dict_get_def)
  from C5_stream_relay_identity [OF h1 h2, of "const_client 200 [''data: a'', ''data: b'']"] h1 h2
  show ?thesis by (simp add: const_client_def)
qed

text \<open>
  C9. On a call that is not streamed, when the upstream answers with a status code other
  than 200 and a body that decodes to the text \<open>detail\<close>, the call ends with an
  \<^verbatim>\<open>HTTPException\<close> that carries the upstream's status code and \<open>detail\<close>.
\<close>

theorem C9_upstream_error_propagated:
  assumes "\<not> truthy F (dict_get body0 ''stream'' (JBool False))"
    and "inject_json_schema_prompt F body0 = Inr body"
    and "post C body = Inr resp"
    and "status_code resp \<noteq> 200"
    and "decode C (concat (aiter_bytes resp)) = Some detail"
  shows "chat_completions F C body0 = Inl (HTTPException (status_code resp) detail)"
  using assms by (simp add: chat_completions_def)

theorem C9_upstream_error_propagated_witness:
  "\<not> truthy text_floats (dict_get [(''messages'', JArr [])] ''stream'' (JBool False))
   \<and> inject_json_schema_prompt text_floats [(''messages'', JArr [])] = Inr [(''messages'', JArr [])]
   \<and> post (const_client 503 [''upstream '', ''down''] :: string client) [(''messages'', JArr [])]
       = Inr \<lparr>status_code = 503, aiter_bytes = [''upstream '', ''down'']\<rparr>
   \<and> chat_completions text_floats (const_client 503 [''upstream '', ''down''])
         [(''messages'', JArr [])]
       = Inl (HTTPException 503 ''upstream down'')"
proof -
  let ?C = "const_client 503 [''upstream '', ''down''] :: string client"
  let ?r = "\<lparr>status_code = 503, aiter_bytes = [''upstream '', ''down'']\<rparr>"
  have h1: "\<not> truthy text_floats (dict_get [(''messages'', JArr [])] ''stream'' (JBool False))"
    by (simp add: dict_get_def)
  have h2: "inject_json_schema_prompt text_floats [(''messages'', JArr [])]
      = Inr [(''messages'', JArr [])]"
    by (simp add: inject_json_schema_prompt_def inject_run_def dict_get_def)
  have h3: "post ?C [(''messages'', JArr [])] = Inr ?r"
    by (simp add: const_client_def)
  have h4: "status_code ?r \<noteq> 200" by simp
  have h5: "decode ?C (concat (aiter_bytes ?r)) = Some ''upstream down''"
    by (simp add: const_client_def)
  from C9_upstream_error_propagated [OF h1 h2 h3 h4 h5] h1 h2 h3
  show ?thesis by simp
qed

text \<open>
  C7. For a request whose \<^verbatim>\<open>response_format\<close> is a dict with \<^verbatim>\<open>"type": "json_object"\<close>
  and whose \<^verbatim>\<open>messages\<close> is a list, the transformer returns the request without the
  format and with exactly one new message in front of the caller's messages. That
  message has the role \<^verbatim>\<open>system\<close> and the fixed preamble as its content, and the
  preamble holds no schema text.
\<close>

theorem C7_json_object_preamble_only:
  assumes "map_of payload ''response_format'' = Some (JObj d)"
    and "map_of d ''type'' = Some (JStr ''json_object'')"
    and "map_of payload ''messages'' = Some (JArr ms)"
  shows "\<exists>p'. inject_json_schema_prompt F payload = Inr p'
           \<and> map_of p' ''messages''
               = Some (JArr (JObj [(''role'', JStr ''system''), (''content'', JStr SCHEMA_PROMPT)] # ms))
           \<and> \<not> sublist ''The response MUST validate against this schema:'' SCHEMA_PROMPT"
proof -
  have "\<not> sublist ''The response MUST validate against this schema:'' SCHEMA_PROMPT"
    by code_simp
  with inject_json_object [OF assms, of F] show ?thesis
    by (simp add: update_conv' system_message_def)
qed

theorem C7_json_object_preamble_only_witness:
  "map_of [(''response_format'', JObj [(''type'', JStr ''json_object'')]),
           (''messages'', JArr [JObj [(''role'', JStr ''user''), (''content'', JStr ''hi'')]])]
     ''response_format'' = Some (JObj [(''type'', JStr ''json_object'')] :: string json)
   \<and> map_of [(''type'', JStr ''json_object'')] ''type'' = Some (JStr ''json_object'' :: string json)
   \<and> (\<exists>p'. inject_json_schema_prompt text_floats
          [(''response_format'', JObj [(''type'', JStr ''json_object'')]),
           (''messages'', JArr [JObj [(''role'', JStr ''user''), (''content'', JStr ''hi'')]])]
          = Inr p'
        \<and> map_of p' ''messages''
            = Some (JArr (JObj [(''role'', JStr ''system''), (''content'', JStr SCHEMA_PROMPT)]
                          # [JObj [(''role'', JStr ''user''), (''content'', JStr ''hi'')]]))
        \<and> \<not> sublist ''The response MUST validate against this schema:'' SCHEMA_PROMPT)"
proof -
  let ?rf = "JObj [(''type'', JStr ''json_object'')] :: string json"
  let ?ms = "[JObj [(''role'', JStr ''user''), (''content'', JStr ''hi'')]] :: string json list"
  let ?p = "[(''response_format'', ?rf), (''messages'', JArr ?ms)]"
  have h1: "map_of ?p ''response_format'' = Some ?rf" by simp
  have h2: "map_of [(''type'', JStr ''json_object'')] ''type'' = Some (JStr ''json_object'' :: string json)"
    by simp
  have h3: "map_of ?p ''messages'' = Some (JArr ?ms)" by simp
  note c = C7_json_object_preamble_only [OF h1 h2 h3, of text_floats]
  show ?thesis by (intro conjI h1 h2 c)
qed
text \<open>
  C6. Whenever the transformer returns a request, that request has no
  \<^verbatim>\<open>response_format\<close> key, and apart from \<^verbatim>\<open>messages\<close> it has the fields of the
  incoming request other than \<^verbatim>\<open>response_format\<close>, with their values and in their
  order; so \<^verbatim>\<open>stream\<close> is as it was. When \<^verbatim>\<open>response_format\<close> is absent or falsy the
  transformer does return, and the result is the incoming request without that key:
  \<^verbatim>\<open>messages\<close> is as it was and no instruction is added.
\<close>

theorem C6_transformer_frame:
  "(inject_json_schema_prompt F payload = Inr p' \<longrightarrow>
      map_of p' ''response_format'' = None
      \<and> AList.delete ''messages'' p'
          = AList.delete ''messages'' (AList.delete ''response_format'' payload)
      \<and> map_of p' ''stream'' = map_of payload ''stream'')
   \<and> (\<not> truthy F (dict_get payload ''response_format'' JNull) \<longrightarrow>
      inject_json_schema_prompt F payload = Inr (AList.delete ''response_format'' payload)
      \<and> map_of (AList.delete ''response_format'' payload) ''messages''
          = map_of payload ''messages'')"
proof (intro conjI impI)
  assume a: "inject_json_schema_prompt F payload = Inr p'"
  show "map_of p' ''response_format'' = None"
    by (rule inject_removes_format [OF a])
  show "AList.delete ''messages'' p'
      = AList.delete ''messages'' (AList.delete ''response_format'' payload)"
    by (rule inject_other_fields [OF a])
  from inject_Inr_cases [OF a] show "map_of p' ''stream'' = map_of payload ''stream''"
    by (auto simp: update_conv' delete_conv')
next
  assume "\<not> truthy F (dict_get payload ''response_format'' JNull)"
  then show "inject_json_schema_prompt F payload
      = Inr (AList.delete ''response_format'' payload)"
    by (rule inject_falsy)
  show "map_of (AList.delete ''response_format'' payload) ''messages''
      = map_of payload ''messages''"
    by simp
qed

theorem C6_transformer_frame_witness:
  "inject_json_schema_prompt text_floats
      [(''model'', JStr ''m''), (''response_format'', JObj []), (''stream'', JBool True),
       (''messages'', JArr [JObj [(''role'', JStr ''user'')]])]
     = Inr [(''model'', JStr ''m''), (''stream'', JBool True),
            (''messages'', JArr [JObj [(''role'', JStr ''user'')]])]
   \<and> \<not> truthy text_floats
        (dict_get [(''model'', JStr ''m''), (''response_format'', JObj []), (''stream'', JBool True),
                   (''messages'', JArr [JObj [(''role'', JStr ''user'')]])] ''response_format'' JNull)
   \<and> map_of [(''model'', JStr ''m''), (''stream'', JBool True),
              (''messages'', JArr [JObj [(''role'', JStr ''user'')]])] ''response_format'' = None
   \<and> map_of [(''model'', JStr ''m''), (''stream'', JBool True),
              (''messages'', JArr [JObj [(''role'', JStr ''user'')]])] ''stream''
       = Some (JBool True :: string json)"
proof -
  let ?p = "[(''model'', JStr ''m''), (''response_format'', JObj []), (''stream'', JBool True),
             (''messages'', JArr [JObj [(''role'', JStr ''user'')]])] :: string dict"
  let ?p' = "[(''model'', JStr ''m''), (''stream'', JBool True),
              (''messages'', JArr [JObj [(''role'', JStr ''user'')]])] :: string dict"
  have h1: "\<not> truthy text_floats (dict_get ?p ''response_format'' JNull)"
    by (simp add: dict_get_def)
  have d: "AList.delete ''response_format'' ?p = ?p'" by simp
  from C6_transformer_frame [of text_floats ?p ?p'] h1 d
  have "inject_json_schema_prompt text_floats ?p = Inr ?p'" by simp
  with C6_transformer_frame [of text_floats ?p ?p'] h1
  show ?thesis by simp
qed

text \<open>
  C1. The claim fails on the code. The refusal is computed from
  \<^verbatim>\<open>body.get("response_format")\<close> after the transformer has popped that key from
  \<^verbatim>\<open>body\<close>, so it is never set: for a request with \<^verbatim>\<open>{"type": "json_object"}\<close> and an
  upstream answer \<^verbatim>\<open>I cannot help with that\<close>, the reply has \<^verbatim>\<open>parsed\<close> and
  \<^verbatim>\<open>refusal\<close> both null.
\<close>

theorem C1_refusal_stays_null:
  \<open>chat_completions text_floats
     (const_client 200
       [''{"choices":[{"message":{"role":"assistant","content":"I cannot help with that"}}]}''])
     [(''response_format'', JObj [(''type'', JStr ''json_object'')]),
      (''messages'', JArr [JObj [(''role'', JStr ''user''), (''content'', JStr ''hi'')]])]
   = Inr (JSONResponse
       (JObj [(''choices'', JArr [JObj [(''message'',
          JObj [(''role'', JStr ''assistant''),
                (''content'', JStr ''I cannot help with that''),
                (''additional_kwargs'',
                   JObj [(''parsed'', JNull), (''refusal'', JNull)])])]])])
       200)\<close>
  by (simp add: json_eval endpoint_eval)

text \<open>
  C2. The claim fails on the code. The schema branch is taken for the type
  \<^verbatim>\<open>schemajson_\<close>, not for \<^verbatim>\<open>json_schema\<close>: a request with the type \<^verbatim>\<open>json_schema\<close>
  and a schema gets the bare preamble, with no schema text after it.
\<close>

theorem C2_json_schema_gets_no_schema:
  "inject_json_schema_prompt text_floats
     [(''response_format'',
         JObj [(''type'', JStr ''json_schema''),
               (''json_schema'', JObj [(''type'', JStr ''object'')])]),
      (''messages'', JArr [JObj [(''role'', JStr ''user''), (''content'', JStr ''hi'')]])]
   = Inr [(''messages'',
            JArr [JObj [(''role'', JStr ''system''), (''content'', JStr SCHEMA_PROMPT)],
                  JObj [(''role'', JStr ''user''), (''content'', JStr ''hi'')]])]"
  by (simp add: inject_json_schema_prompt_def inject_run_def instruction_for_def dict_get_def
      eq_str_def system_message_def)

text \<open>
  C3. The claim fails on the code, which has no check of the format and no client error
  for it. What holds: when the format is a dict that takes the schema branch and has no
  \<^verbatim>\<open>json_schema\<close> key, the transformer ends with the \<^verbatim>\<open>KeyError\<close> of that lookup and
  leaves the request with \<^verbatim>\<open>response_format\<close> removed and nothing else changed, no
  message added; the endpoint ends with the same \<^verbatim>\<open>KeyError\<close>, which is not a client
  error; and on no request at all does the transformer end with a client error.
\<close>

theorem C3_missing_schema_is_KeyError:
  assumes "map_of payload ''response_format'' = Some (JObj d)"
    and "eq_str (dict_get d ''type'' JNull) ''schemajson_''"
    and "map_of d ''json_schema'' = None"
  shows "inject_run F payload
           = (AList.delete ''response_format'' payload, Some (KeyError ''json_schema''))
       \<and> inject_json_schema_prompt F payload = Inl (KeyError ''json_schema'')
       \<and> chat_completions F C payload = Inl (KeyError ''json_schema'')
       \<and> \<not> client_error (KeyError ''json_schema'')
       \<and> (\<forall>p e. inject_json_schema_prompt F p = Inl e \<longrightarrow> \<not> client_error e)"
proof -
  from assms(2) have "d \<noteq> []"
    by (auto simp: eq_str_def dict_get_def)
  with assms(1) have t: "truthy F (dict_get payload ''response_format'' JNull)"
    by (simp add: dict_get_def)
  from assms(2,3) have i: "instruction_for F (JObj d) = Inl (KeyError ''json_schema'')"
    by (simp add: instruction_for_def)
  from assms(1) t i have 0: "inject_run F payload
      = (AList.delete ''response_format'' payload, Some (KeyError ''json_schema''))"
    by (simp add: inject_run_def dict_get_def)
  then have 1: "inject_json_schema_prompt F payload = Inl (KeyError ''json_schema'')"
    by (simp add: inject_json_schema_prompt_def)
  then have 2: "chat_completions F C payload = Inl (KeyError ''json_schema'')"
    by (simp add: chat_completions_def)
  have 3: "\<not> client_error (KeyError ''json_schema'')"
    by (simp add: client_error_def)
  have 4: "\<forall>p e. inject_json_schema_prompt F p = Inl e \<longrightarrow> \<not> client_error e"
    by (intro allI impI) (rule inject_no_client_error)
  from 0 1 2 3 4 show ?thesis by (intro conjI)
qed

theorem C3_missing_schema_is_KeyError_witness:
  "map_of [(''response_format'', JObj [(''type'', JStr ''schemajson_'')]),
           (''messages'', JArr [JObj [(''role'', JStr ''user''), (''content'', JStr ''hi'')]])]
      ''response_format'' = Some (JObj [(''type'', JStr ''schemajson_'')] :: string json)
   \<and> eq_str (dict_get [(''type'', JStr ''schemajson_'' :: string json)] ''type'' JNull) ''schemajson_''
   \<and> map_of [(''type'', JStr ''schemajson_'' :: string json)] ''json_schema'' = None
   \<and> inject_run text_floats
        [(''response_format'', JObj [(''type'', JStr ''schemajson_'')]),
         (''messages'', JArr [JObj [(''role'', JStr ''user''), (''content'', JStr ''hi'')]])]
       = ([(''messages'', JArr [JObj [(''role'', JStr ''user''), (''content'', JStr ''hi'')]])],
          Some (KeyError ''json_schema''))
   \<and> chat_completions text_floats (const_client 200 [])
        [(''response_format'', JObj [(''type'', JStr ''schemajson_'')]),
         (''messages'', JArr [JObj [(''role'', JStr ''user''), (''content'', JStr ''hi'')]])]
       = Inl (KeyError ''json_schema'')"
proof -
  let ?d = "[(''type'', JStr ''schemajson_'')] :: string dict"
  let ?ms = "JArr [JObj [(''role'', JStr ''user''), (''content'', JStr ''hi'')]] :: string json"
  let ?p = "[(''response_format'', JObj ?d), (''messages'', ?ms)] :: string dict"
  have h1: "map_of ?p ''response_format'' = Some (JObj ?d)" by simp
  have h2: "eq_str (dict_get ?d ''type'' JNull) ''schemajson_''"
    by (simp add: eq_str_def dict_get_def)
  have h3: "map_of ?d ''json_schema'' = None" by simp
  note t = C3_missing_schema_is_KeyError [OF h1 h2 h3, of text_floats "const_client 200 []"]
  from t have "inject_run text_floats ?p
      = (AList.delete ''response_format'' ?p, Some (KeyError ''json_schema''))"
    by (elim conjE)
  then have r: "inject_run text_floats ?p = ([(''messages'', ?ms)], Some (KeyError ''json_schema''))"
    by simp
  from t have c: "chat_completions text_floats (const_client 200 []) ?p
      = Inl (KeyError ''json_schema'')"
    by (elim conjE)
  show ?thesis by (intro conjI h1 h2 h3 r c)
qed

theorem C3_counterexample:
  "inject_json_schema_prompt text_floats
      [(''response_format'', JObj [(''type'', JStr ''schemajson_'')]), (''messages'', JArr [])]
     = Inl (KeyError ''json_schema'')
   \<and> \<not> client_error (KeyError ''json_schema'')
   \<and> inject_json_schema_prompt text_floats
      [(''response_format'', JObj [(''type'', JStr ''json_schema'')]), (''messages'', JArr [])]
     = Inr [(''messages'',
              JArr [JObj [(''role'', JStr ''system''), (''content'', JStr SCHEMA_PROMPT)]])]"
  by (simp add: inject_json_schema_prompt_def inject_run_def instruction_for_def dict_get_def
      eq_str_def system_message_def client_error_def)

text \<open>
  C8. When the message of the first choice has no text under \<^verbatim>\<open>content\<close> and neither
  its \<^verbatim>\<open>tool_calls\<close> nor its \<^verbatim>\<open>function_call\<close> is a string, unpacking raises nothing
  and the value it returns is not scanned: the extraction raises nothing and its result
  is none. Neither step reads the request, so this is so whatever \<^verbatim>\<open>response_format\<close>
  was.
\<close>

theorem C8_tool_payload_not_scanned:
  assumes "map_of choice0 ''message'' = Some (JObj msg)"
    and "\<forall>s. map_of msg ''content'' \<noteq> Some (JStr s)"
    and "\<forall>s. map_of msg ''tool_calls'' \<noteq> Some (JStr s)"
    and "\<forall>s. map_of msg ''function_call'' \<noteq> Some (JStr s)"
  shows "\<exists>raw. unpack_content (JObj choice0) = Inr raw \<and> parsed_of F raw = Inr None"
proof -
  let ?raw = "case map_of msg ''content'' of Some v \<Rightarrow> v
    | None \<Rightarrow> (case map_of msg ''tool_calls'' of Some v \<Rightarrow> v
       | None \<Rightarrow> (case map_of msg ''function_call'' of Some v \<Rightarrow> v | None \<Rightarrow> JNull))"
  from assms(1) have u: "unpack_content (JObj choice0) = Inr ?raw"
    by (auto simp: unpack_content_def dict_get_def split: option.splits)
  from assms(2-4) have "\<forall>s. ?raw \<noteq> JStr s"
    by (auto split: option.splits)
  then have "parsed_of F ?raw = Inr None"
    by (cases ?raw) (simp_all add: parsed_of_def)
  with u show ?thesis by blast
qed

theorem C8_tool_payload_not_scanned_witness:
  \<open>map_of [(''message'', JObj [(''role'', JStr ''assistant''), (''tool_calls'', JArr [JStr ''{"a":1}''])])]
      ''message''
     = Some (JObj [(''role'', JStr ''assistant''), (''tool_calls'', JArr [JStr ''{"a":1}''])] :: string json)
   \<and> unpack_content
        (JObj [(''message'', JObj [(''role'', JStr ''assistant''), (''tool_calls'', JArr [JStr ''{"a":1}''])])])
       = Inr (JArr [JStr ''{"a":1}''] :: string json)
   \<and> parsed_of text_floats (JArr [JStr ''{"a":1}'']) = Inr None\<close>
proof -
  let ?msg = \<open>[(''role'', JStr ''assistant''), (''tool_calls'', JArr [JStr ''{"a":1}''])] :: string dict\<close>
  let ?c = "[(''message'', JObj ?msg)] :: string dict"
  have h1: "map_of ?c ''message'' = Some (JObj ?msg)" by simp
  have h2: "\<forall>s. map_of ?msg ''content'' \<noteq> Some (JStr s)" by simp
  have h3: "\<forall>s. map_of ?msg ''tool_calls'' \<noteq> Some (JStr s)" by simp
  have h4: "\<forall>s. map_of ?msg ''function_call'' \<noteq> Some (JStr s)" by simp
  from C8_tool_payload_not_scanned [OF h1 h2 h3 h4, of text_floats]
  obtain raw where r: "unpack_content (JObj ?c) = Inr raw" "parsed_of text_floats raw = Inr None"
    by (elim exE conjE)
  have u: \<open>unpack_content (JObj ?c) = Inr (JArr [JStr ''{"a":1}''])\<close>
    by (simp add: unpack_content_def dict_get_def)
  with r have \<open>parsed_of text_floats (JArr [JStr ''{"a":1}'']) = Inr None\<close> by simp
  with h1 u show ?thesis by (intro conjI)
qed

text \<open>
  C4. The three examples of the claim come out as stated, and a candidate that
  \<^verbatim>\<open>json.loads\<close> refuses with \<^verbatim>\<open>JSONDecodeError\<close> gives none. But the \<^verbatim>\<open>except\<close>
  clause names that exception only, and \<^verbatim>\<open>json.loads\<close> has two more: for the text
  \<^verbatim>\<open>{"a":\<close>, 4301 times the digit \<^verbatim>\<open>1\<close>, \<^verbatim>\<open>}\<close>, whose integer has one digit more
  than the interpreter converts, \<^verbatim>\<open>_extract_first_json\<close> ends with \<^verbatim>\<open>ValueError\<close>, and
  for \<^verbatim>\<open>{"a":\<close>, 100000 opening brackets, \<^verbatim>\<open>}\<close> with \<^verbatim>\<open>RecursionError\<close>.
\<close>

theorem C4_extract_first_json_raises:
  \<open>extract_first_json text_floats (''{"a":'' @ replicate 4301 (CHR ''1'') @ ''}'') = Inl ValueError
   \<and> extract_first_json text_floats (''{"a":'' @ replicate 100000 (CHR ''['') @ ''}'')
       = Inl RecursionError
   \<and> extract_first_json text_floats ''no braces here'' = Inr None
   \<and> extract_first_json text_floats ''prefix {"a":1} suffix'' = Inr (Some (JObj [(''a'', JInt 1)]))
   \<and> extract_first_json text_floats ''{"a": invalid}'' = Inr None\<close>
proof (intro conjI)
  show \<open>extract_first_json text_floats (''{"a":'' @ replicate 4301 (CHR ''1'') @ ''}'')
      = Inl ValueError\<close>
    by (rule extract_first_json_long_int) (simp_all add: text_floats_def)
next
  show \<open>extract_first_json text_floats (''{"a":'' @ replicate 100000 (CHR ''['') @ ''}'')
      = Inl RecursionError\<close>
    by (rule extract_first_json_deep) (simp_all add: text_floats_def)
next
  show "extract_first_json text_floats ''no braces here'' = Inr None"
    by (simp add: extract_first_json_def JSON_RE_search_def)
next
  show \<open>extract_first_json text_floats ''prefix {"a":1} suffix''
      = Inr (Some (JObj [(''a'', JInt 1)]))\<close>
    by (simp add: json_eval text_floats_def)
next
  show \<open>extract_first_json text_floats ''{"a": invalid}'' = Inr None\<close>
    by (simp add: json_eval text_floats_def)
qed




end
